theory Spec2Isabelle
  imports Main "HOL-Library.Word"
begin

section \<open>The chain synchronizer of the wallet\<close>

text \<open>
  A shallow embedding of the class \<open>Synchronizer\<close> (the chain synchronizer of the wallet's
  background process) and of the class \<open>SecretKey\<close>. Every method becomes a function
  that takes the state and returns the new state together with its result; a thrown error
  or a rejected promise is the \<open>Inl\<close> branch of a sum. Log output is not part of the
  state that is modelled.
\<close>

subsection \<open>Data\<close>

type_synonym byte = "8 word"

text \<open>A \<open>Buffer\<close> or \<open>Uint8Array\<close>.\<close>
type_synonym buffer = "byte list"

text \<open>An unsigned \<open>Long\<close>: 64 bits, \<open>add\<close> wraps around, comparisons are unsigned.\<close>
type_synonym Long = "64 word"

text \<open>The amount of an \<open>Asset\<close>: an exact decimal (big.js), counted in the smallest unit.\<close>
type_synonym Asset = int

datatype ScriptHash = ScriptHash (bytes: buffer)
datatype PublicKey = PublicKey buffer
datatype Script = Script buffer

type_synonym SigPair = "buffer \<times> buffer"

text \<open>
  The two functions of the godcoin library that \<open>txHasMatch\<close> calls,
  \<open>PublicKey.toScript\<close> and \<open>Script.hash\<close>, are parameters of the model.
\<close>
record godcoin =
  toScript :: "PublicKey \<Rightarrow> Script"
  hash :: "Script \<Rightarrow> ScriptHash"

text \<open>
  The transaction variants with the fields the synchronizer reads: \<open>OwnerTxV0 minter script\<close>,
  \<open>MintTxV0 to\<close>, \<open>RewardTxV0 to\<close>, \<open>TransferTxV0 from to\<close>. \<open>OtherTx\<close> is a
  value that is an instance of none of the four classes, the case the final \<open>throw\<close> of
  \<open>txHasMatch\<close> is written for.
\<close>
datatype Tx =
    OwnerTxV0 PublicKey Script
  | MintTxV0 ScriptHash
  | RewardTxV0 ScriptHash
  | TransferTxV0 ScriptHash ScriptHash
  | OtherTx buffer

record TxVariant =
  tx :: Tx
  signature_pairs :: "SigPair list"

record BlockHeader =
  height :: Long

record Block =
  header :: BlockHeader
  transactions :: "TxVariant list"

text \<open>The argument of \<open>applyBlock\<close>: \<open>[BlockHeader, SigPair] | Block\<close>.\<close>
datatype BlockMsg = FullBlock Block | HeaderOnly BlockHeader SigPair

text \<open>
  \<open>SyncStatus\<close>. The enum of \<open>ipc-models.ts\<close> lists \<open>Complete\<close> and
  \<open>InProgress\<close>; the synchronizer also assigns and tests \<open>SyncStatus.Connecting\<close>
  (its field initialiser, its close handler and \<open>startSync\<close>), a third value distinct from
  the two others.
\<close>
datatype SyncStatus = Complete | InProgress | Connecting

datatype DecryptErrorType = INCORRECT_PASSWORD | UNKNOWN

datatype error =
    RpcError string
  | ExpectedGetProperties
  | UnexpectedRpcResponse
  | ExhaustiveCheckFailed
  | SyncHeightMustBeUnsigned
  | AssertionError string
  | DecryptError DecryptErrorType string

text \<open>Requests sent to the remote node, and the bodies of its responses.\<close>
datatype RpcReq =
    Subscribe
  | SetBlockFilter "ScriptHash list"
  | GetProperties
  | GetBlockRange Long Long
  | GetAddressInfo ScriptHash

datatype RpcRes =
    SubscribeRes
  | SetBlockFilterRes
  | GetPropertiesRes Long
  | GetBlockRes Block
  | GetAddressInfoRes Asset

text \<open>
  What \<open>getBlockRange\<close> delivers to its callback: the blocks, each with the reading of
  \<open>Date.now()\<close> taken after it was applied, then either the end of the range
  (\<open>None\<close>) or an error. \<open>rangeStart\<close> is the reading of \<open>Date.now()\<close> before the
  request.
\<close>
record RangeStream =
  rangeStart :: int
  rangeItems :: "(BlockMsg \<times> int) list"
  rangeEnd :: "error option"

text \<open>The answers of the remote node during one operation: a rejected request is \<open>Inl\<close>.\<close>
record Remote =
  subscribe :: "error + RpcRes"
  setBlockFilter :: "error + RpcRes"
  getProperties :: "error + RpcRes"
  getBlockRange :: "Long \<Rightarrow> Long \<Rightarrow> RangeStream"
  getAddressInfo :: "ScriptHash \<Rightarrow> error + RpcRes"

record TxRawRow =
  row_id :: nat
  row_tx :: TxVariant

record NewData =
  totalBalance :: Asset
  txs :: "TxRawRow list"

record SyncUpdateRaw =
  status :: SyncStatus
  newData :: "NewData option"

text \<open>
  Modelled from the spec: the persistent store (\<open>WalletDb\<close> with its \<open>KvTable\<close> and
  \<open>TxsTable\<close>) is not among the sources. It holds the persisted height, the persisted
  aggregate balance and an append-only log of transaction rows; an insertion returns the
  descriptor of the row it appended.
\<close>
record WalletDb =
  kvSyncHeight :: "Long option"
  kvTotalBalance :: "Asset option"
  txsRows :: "TxRawRow list"

text \<open>
  The state: the six fields of the \<open>Synchronizer\<close> instance, then its collaborators: the
  store, the updates emitted so far, the requests sent so far, the timers armed in the
  runtime with the next fresh handle, and the catch-up attempts that have started and not
  yet returned (each with the \<open>oldStatus\<close> it read).
\<close>
record state =
  watchAddrs :: "ScriptHash list"
  currentHeight :: Long
  pendingBlocks :: "Block list"
  syncStatus :: SyncStatus
  fullSyncRetryTimer :: "nat option"
  fullSyncInProgress :: bool
  db :: WalletDb
  emitted :: "SyncUpdateRaw list"
  rpcLog :: "RpcReq list"
  timers :: "nat list"
  timerSeq :: nat
  inflight :: "SyncStatus list"

subsection \<open>Watched addresses\<close>

text \<open>\<open>Buffer.compare\<close>: lexicographic on the bytes, a proper prefix is smaller.\<close>
fun Buffer_compare :: "buffer \<Rightarrow> buffer \<Rightarrow> int" where
  "Buffer_compare [] [] = 0"
| "Buffer_compare [] (y # ys) = - 1"
| "Buffer_compare (x # xs) [] = 1"
| "Buffer_compare (x # xs) (y # ys) =
     (if x < y then - 1 else if y < x then 1 else Buffer_compare xs ys)"

text \<open>\<open>Array.prototype.findIndex\<close>: the first index that satisfies the test, or -1.\<close>
fun findIndex_from :: "('a \<Rightarrow> bool) \<Rightarrow> 'a list \<Rightarrow> int \<Rightarrow> int" where
  "findIndex_from p [] i = - 1"
| "findIndex_from p (x # xs) i = (if p x then i else findIndex_from p xs (i + 1))"

definition findIndex :: "('a \<Rightarrow> bool) \<Rightarrow> 'a list \<Rightarrow> int" where
  "findIndex p xs = findIndex_from p xs 0"

definition isWatched :: "state \<Rightarrow> ScriptHash \<Rightarrow> bool" where
  "isWatched s addr =
     (let index = findIndex (\<lambda>watchAddr. Buffer_compare (bytes addr) (bytes watchAddr) = 0)
                    (watchAddrs s)
      in index > - 1)"

subsection \<open>The block applier\<close>

fun txHasMatch :: "godcoin \<Rightarrow> state \<Rightarrow> TxVariant \<Rightarrow> error + bool" where
  "txHasMatch lib s txVariant =
     (case tx txVariant of
        OwnerTxV0 minter script \<Rightarrow>
          Inr (isWatched s (hash lib (toScript lib minter)) \<or> isWatched s (hash lib script))
      | MintTxV0 to \<Rightarrow> Inr (isWatched s to)
      | RewardTxV0 to \<Rightarrow> Inr (isWatched s to)
      | TransferTxV0 from to \<Rightarrow> Inr (isWatched s from \<or> isWatched s to)
      | OtherTx _ \<Rightarrow> Inl ExhaustiveCheckFailed)"

text \<open>\<open>TxsTable.insert\<close>: appends a row to the log and returns it.\<close>
definition txsTable_insert :: "TxVariant \<Rightarrow> state \<Rightarrow> TxRawRow \<times> state" where
  "txsTable_insert wrapper s =
     (let row = \<lparr>row_id = length (txsRows (db s)), row_tx = wrapper\<rparr>
      in (row, s\<lparr>db := (db s)\<lparr>txsRows := txsRows (db s) @ [row]\<rparr>\<rparr>))"

text \<open>
  The loop of \<open>applyBlock\<close> over the transactions of a full block. The accumulator is the
  variable \<open>txs\<close>, \<open>undefined\<close> (\<open>None\<close>) until the first match.
\<close>
fun applyTxs ::
  "godcoin \<Rightarrow> TxVariant list \<Rightarrow> TxRawRow list option \<Rightarrow> state
     \<Rightarrow> (error + TxRawRow list option) \<times> state" where
  "applyTxs lib [] acc s = (Inr acc, s)"
| "applyTxs lib (wrapper # rest) acc s =
     (case txHasMatch lib s wrapper of
        Inl e \<Rightarrow> (Inl e, s)
      | Inr m \<Rightarrow>
          if \<not> m then applyTxs lib rest acc s
          else (case txsTable_insert wrapper s of
                  (row, s') \<Rightarrow>
                    applyTxs lib rest
                      (Some ((case acc of None \<Rightarrow> [] | Some rows \<Rightarrow> rows) @ [row])) s'))"

definition applyBlock ::
  "godcoin \<Rightarrow> BlockMsg \<Rightarrow> state \<Rightarrow> (error + TxRawRow list option) \<times> state" where
  "applyBlock lib block s =
     (case block of
        FullBlock b \<Rightarrow>
          (case applyTxs lib (transactions b) None s of
             (Inl e, s') \<Rightarrow> (Inl e, s')
           | (Inr acc, s') \<Rightarrow> (Inr acc, s'\<lparr>currentHeight := height (header b)\<rparr>))
      | HeaderOnly hdr sig \<Rightarrow> (Inr None, s\<lparr>currentHeight := height hdr\<rparr>))"

subsection \<open>Persisting, emitting, timers\<close>

text \<open>\<open>emitSyncUpdate\<close>: the update goes to the listeners and to the IPC channel.\<close>
definition emitSyncUpdate :: "SyncUpdateRaw \<Rightarrow> state \<Rightarrow> state" where
  "emitSyncUpdate update s = s\<lparr>emitted := emitted s @ [update]\<rparr>"

text \<open>\<open>updateSyncHeight\<close>: \<open>KvTable.setSyncHeight(this.currentHeight)\<close>.\<close>
definition updateSyncHeight :: "state \<Rightarrow> state" where
  "updateSyncHeight s = s\<lparr>db := (db s)\<lparr>kvSyncHeight := Some (currentHeight s)\<rparr>\<rparr>"

text \<open>\<open>clearTimeout\<close> and \<open>clearInterval\<close>: the handle is no longer armed.\<close>
definition clearTimeout :: "nat \<Rightarrow> state \<Rightarrow> state" where
  "clearTimeout t s = s\<lparr>timers := removeAll t (timers s)\<rparr>"

text \<open>\<open>setTimeout\<close>: arms a timer under a fresh handle, which it returns.\<close>
definition setTimeout :: "state \<Rightarrow> nat \<times> state" where
  "setTimeout s = (timerSeq s, s\<lparr>timers := timers s @ [timerSeq s], timerSeq := timerSeq s + 1\<rparr>)"

subsection \<open>The balance aggregator\<close>

text \<open>
  \<open>Promise.all\<close>: the values of all the promises, or the rejection of one of them (here
  the first in the order of the array).
\<close>
fun Promise_all :: "(error + 'a) list \<Rightarrow> error + 'a list" where
  "Promise_all [] = Inr []"
| "Promise_all (p # ps) =
     (case p of
        Inl e \<Rightarrow> Inl e
      | Inr v \<Rightarrow> (case Promise_all ps of Inl e \<Rightarrow> Inl e | Inr vs \<Rightarrow> Inr (v # vs)))"

text \<open>The loop of \<open>updateTotalBalance\<close> over the responses.\<close>
fun sumBalances :: "RpcRes list \<Rightarrow> Asset \<Rightarrow> error + Asset" where
  "sumBalances [] totalBal = Inr totalBal"
| "sumBalances (res # rest) totalBal =
     (case res of
        GetAddressInfoRes balance \<Rightarrow> sumBalances rest (totalBal + balance)
      | _ \<Rightarrow> Inl UnexpectedRpcResponse)"

definition updateTotalBalance :: "Remote \<Rightarrow> state \<Rightarrow> (error + Asset) \<times> state" where
  "updateTotalBalance r s =
     (let s1 = s\<lparr>rpcLog := rpcLog s @ map GetAddressInfo (watchAddrs s)\<rparr>
      in case Promise_all (map (getAddressInfo r) (watchAddrs s)) of
           Inl e \<Rightarrow> (Inl e, s1)
         | Inr responses \<Rightarrow>
             (case sumBalances responses 0 of
                Inl e \<Rightarrow> (Inl e, s1)
              | Inr totalBal \<Rightarrow>
                  (Inr totalBal, s1\<lparr>db := (db s1)\<lparr>kvTotalBalance := Some totalBal\<rparr>\<rparr>)))"

subsection \<open>The catch-up procedure\<close>

text \<open>
  The callback given to \<open>getBlockRange\<close>, run on each delivered block in turn. The callback
  is an \<open>async\<close> function whose promise nobody awaits: when \<open>applyBlock\<close> throws in it,
  the rest of that invocation is lost and the range goes on with the next block.
\<close>
fun rangeLoop ::
  "godcoin \<Rightarrow> (BlockMsg \<times> int) list \<Rightarrow> int \<Rightarrow> TxRawRow list \<Rightarrow> state
     \<Rightarrow> TxRawRow list \<times> state" where
  "rangeLoop lib [] time acc s = (acc, s)"
| "rangeLoop lib ((filteredBlock, curTime) # rest) time acc s =
     (case applyBlock lib filteredBlock s of
        (Inl e, s1) \<Rightarrow> rangeLoop lib rest time acc s1
      | (Inr updatedTxs, s1) \<Rightarrow>
          (case (case updatedTxs of
                   None \<Rightarrow> (acc, s1)
                 | Some rows \<Rightarrow>
                     if length rows > 0 then (acc @ rows, updateSyncHeight s1) else (acc, s1)) of
             (acc2, s2) \<Rightarrow>
               if curTime - time > 5000
               then rangeLoop lib rest curTime acc2 (updateSyncHeight s2)
               else rangeLoop lib rest time acc2 s2))"

definition rangeSync ::
  "godcoin \<Rightarrow> Remote \<Rightarrow> Long \<Rightarrow> state \<Rightarrow> (error + TxRawRow list) \<times> state" where
  "rangeSync lib r chainHeight s =
     (let s1 = s\<lparr>rpcLog := rpcLog s @ [GetBlockRange (currentHeight s + 1) chainHeight]\<rparr>;
          stream = getBlockRange r (currentHeight s + 1) chainHeight
      in case rangeLoop lib (rangeItems stream) (rangeStart stream) [] s1 of
           (acc, s2) \<Rightarrow>
             (case rangeEnd stream of Some e \<Rightarrow> (Inl e, s2) | None \<Rightarrow> (Inr acc, s2)))"

text \<open>The loop over \<open>this.pendingBlocks\<close> at the end of \<open>performFullSync\<close>.\<close>
fun drainPending ::
  "godcoin \<Rightarrow> Block list \<Rightarrow> TxRawRow list \<Rightarrow> state \<Rightarrow> (error + TxRawRow list) \<times> state" where
  "drainPending lib [] acc s = (Inr acc, s)"
| "drainPending lib (block # rest) acc s =
     (if height (header block) \<le> currentHeight s then drainPending lib rest acc s
      else (case applyBlock lib (FullBlock block) s of
              (Inl e, s1) \<Rightarrow> (Inl e, s1)
            | (Inr updatedTxs, s1) \<Rightarrow>
                (case updatedTxs of
                   None \<Rightarrow> drainPending lib rest acc s1
                 | Some rows \<Rightarrow>
                     if length rows > 0 then drainPending lib rest (acc @ rows) s1
                     else drainPending lib rest acc s1)))"

text \<open>The \<open>try\<close> block of \<open>performFullSync\<close>.\<close>
definition performFullSync_try ::
  "godcoin \<Rightarrow> Remote \<Rightarrow> state \<Rightarrow> (error + unit) \<times> state" where
  "performFullSync_try lib r s =
     (let s1 = s\<lparr>rpcLog := rpcLog s @ [GetProperties]\<rparr>
      in case getProperties r of
           Inl e \<Rightarrow> (Inl e, s1)
         | Inr chainPropsBody \<Rightarrow>
             (case chainPropsBody of
                GetPropertiesRes chainHeight \<Rightarrow>
                  (case (if currentHeight s1 < chainHeight then rangeSync lib r chainHeight s1
                         else (Inr [], s1)) of
                     (Inl e, s2) \<Rightarrow> (Inl e, s2)
                   | (Inr acc, s2) \<Rightarrow>
                       (case updateTotalBalance r s2 of
                          (Inl e, s3) \<Rightarrow> (Inl e, s3)
                        | (Inr totalBal, s3) \<Rightarrow>
                            (case drainPending lib (pendingBlocks s3) acc s3 of
                               (Inl e, s4) \<Rightarrow> (Inl e, s4)
                             | (Inr acc', s4) \<Rightarrow>
                                 (let s5 = updateSyncHeight s4;
                                      s6 = s5\<lparr>syncStatus := Complete\<rparr>
                                  in (Inr (),
                                      emitSyncUpdate
                                        \<lparr>status = syncStatus s6,
                                         newData = Some \<lparr>totalBalance = totalBal, txs = acc'\<rparr>\<rparr>
                                        s6)))))
              | _ \<Rightarrow> (Inl ExpectedGetProperties, s1)))"

text \<open>\<open>performFullSync\<close>: the \<open>try\<close> block, then the \<open>finally\<close> block.\<close>
definition performFullSync :: "godcoin \<Rightarrow> Remote \<Rightarrow> state \<Rightarrow> (error + unit) \<times> state" where
  "performFullSync lib r s =
     (case performFullSync_try lib r s of (res, s') \<Rightarrow> (res, s'\<lparr>pendingBlocks := []\<rparr>))"

subsection \<open>The handlers of the transport's events\<close>

text \<open>
  \<open>startSync\<close> is an \<open>async\<close> method: a call runs up to its first \<open>await\<close> and the
  rest runs later, while other events are handled in between. \<open>startSync_begin\<close> is the
  part before the first \<open>await\<close>: the guard, the flag, the retry timer, the status and the
  status-only update; it records the attempt in \<open>inflight\<close>. \<open>startSync_resume\<close> is the
  rest, run without interruption: the subscription and the filter when \<open>oldStatus\<close> was
  \<open>Connecting\<close>, \<open>performFullSync\<close>, the \<open>catch\<close> block that schedules the retry and the
  \<open>finally\<close> block.
\<close>
definition startSync_begin :: "state \<Rightarrow> state" where
  "startSync_begin s =
     (if fullSyncInProgress s then s
      else
        (let s1 = s\<lparr>fullSyncInProgress := True\<rparr>;
             s2 = (case fullSyncRetryTimer s1 of
                     Some t \<Rightarrow> (clearTimeout t s1)\<lparr>fullSyncRetryTimer := None\<rparr>
                   | None \<Rightarrow> s1);
             oldStatus = syncStatus s2;
             s3 = s2\<lparr>syncStatus := InProgress\<rparr>;
             s4 = emitSyncUpdate \<lparr>status = syncStatus s3, newData = None\<rparr> s3
         in s4\<lparr>inflight := inflight s4 @ [oldStatus]\<rparr>))"

text \<open>
  The first \<open>try\<close> block of \<open>startSync\<close>: when the subscription is rejected the filter is
  not sent; either failure is logged and nothing else.
\<close>
definition configure :: "Remote \<Rightarrow> state \<Rightarrow> state" where
  "configure r s =
     (let s1 = s\<lparr>rpcLog := rpcLog s @ [Subscribe]\<rparr>
      in case subscribe r of
           Inl e \<Rightarrow> s1
         | Inr _ \<Rightarrow> s1\<lparr>rpcLog := rpcLog s1 @ [SetBlockFilter (watchAddrs s1)]\<rparr>)"

definition startSync_resume :: "godcoin \<Rightarrow> Remote \<Rightarrow> SyncStatus \<Rightarrow> state \<Rightarrow> state" where
  "startSync_resume lib r oldStatus s =
     (let s1 = (if oldStatus = Connecting then configure r s else s)
      in case performFullSync lib r s1 of
           (res, s2) \<Rightarrow>
             (let s3 = (case res of
                          Inl e \<Rightarrow> (case setTimeout s2 of
                                      (t, s') \<Rightarrow> s'\<lparr>fullSyncRetryTimer := Some t\<rparr>)
                        | Inr _ \<Rightarrow> s2)
              in s3\<lparr>fullSyncInProgress := False\<rparr>))"


text \<open>The listener of the client's \<open>close\<close> event.\<close>
definition on_close :: "state \<Rightarrow> state" where
  "on_close s =
     (let s1 = s\<lparr>fullSyncInProgress := False\<rparr>;
          s2 = (case fullSyncRetryTimer s1 of
                  Some t \<Rightarrow> (clearTimeout t s1)\<lparr>fullSyncRetryTimer := None\<rparr>
                | None \<Rightarrow> s1);
          s3 = s2\<lparr>syncStatus := Connecting\<rparr>
      in emitSyncUpdate \<lparr>status = syncStatus s3, newData = None\<rparr> s3)"

text \<open>
  The listener of the client's \<open>sub_msg\<close> event. An error of \<open>applyBlock\<close> or of
  \<open>updateTotalBalance\<close> is caught and logged.
\<close>
definition on_sub_msg :: "godcoin \<Rightarrow> Remote \<Rightarrow> RpcRes \<Rightarrow> state \<Rightarrow> state" where
  "on_sub_msg lib r res s =
     (case res of
        GetBlockRes block \<Rightarrow>
          if syncStatus s \<noteq> Complete then s\<lparr>pendingBlocks := pendingBlocks s @ [block]\<rparr>
          else
            (case applyBlock lib (FullBlock block) s of
               (Inl e, s1) \<Rightarrow> s1
             | (Inr updatedTxs, s1) \<Rightarrow>
                 (case (case updatedTxs of
                          None \<Rightarrow> (Inr None, s1)
                        | Some rows \<Rightarrow>
                            if length rows > 0
                            then (case updateTotalBalance r s1 of
                                    (Inl e, s2) \<Rightarrow> (Inl e, s2)
                                  | (Inr totalBal, s2) \<Rightarrow>
                                      (Inr (Some \<lparr>totalBalance = totalBal, txs = rows\<rparr>), s2))
                            else (Inr None, s1)) of
                    (Inl e, s2) \<Rightarrow> s2
                  | (Inr nd, s2) \<Rightarrow>
                      updateSyncHeight
                        (emitSyncUpdate \<lparr>status = syncStatus s2, newData = nd\<rparr> s2)))
      | _ \<Rightarrow> s)"

text \<open>
  The constructor. \<open>isUnsigned\<close> is the flag \<open>unsigned\<close> of the \<open>Long\<close> it is given, \<open>isOpen\<close> the answer
  of \<open>client.isOpen()\<close>.
\<close>
definition new_Synchronizer ::
  "ScriptHash list \<Rightarrow> bool \<Rightarrow> Long \<Rightarrow> bool \<Rightarrow> WalletDb \<Rightarrow> error + state" where
  "new_Synchronizer addrs isUnsigned syncHeight isOpen store =
     (if \<not> isUnsigned then Inl SyncHeightMustBeUnsigned
      else
        (let s = \<lparr>watchAddrs = addrs, currentHeight = syncHeight, pendingBlocks = [],
                  syncStatus = Connecting, fullSyncRetryTimer = None,
                  fullSyncInProgress = False, db = store, emitted = [], rpcLog = [],
                  timers = [], timerSeq = 0, inflight = []\<rparr>
         in Inr (if isOpen then startSync_begin s else s)))"

text \<open>
  The events the synchronizer reacts to: the transport opens, the transport closes, the
  retry timer with a given handle fires, a message of the subscription arrives, and the
  oldest catch-up attempt in flight runs its remaining part against the given answers
  of the remote node.
\<close>
datatype event =
    Open
  | Close
  | RetryFire nat
  | SubMsg Remote RpcRes
  | Resume Remote

fun step :: "godcoin \<Rightarrow> event \<Rightarrow> state \<Rightarrow> state" where
  "step lib Open s = startSync_begin s"
| "step lib Close s = on_close s"
| "step lib (RetryFire t) s = startSync_begin (s\<lparr>timers := removeAll t (timers s)\<rparr>)"
| "step lib (SubMsg r res) s = on_sub_msg lib r res s"
| "step lib (Resume r) s =
     (case inflight s of
        [] \<Rightarrow> s
      | oldStatus # rest \<Rightarrow> startSync_resume lib r oldStatus (s\<lparr>inflight := rest\<rparr>))"



subsection \<open>The secret key\<close>

text \<open>
  The two functions of libsodium that \<open>SecretKey\<close> wraps are parameters of the model:
  \<open>crypto_secretbox_easy message nonce key\<close> and
  \<open>crypto_secretbox_open_easy ciphertext nonce key\<close>, which throws an error with a
  message (\<open>Inl\<close>) or returns the plaintext.
\<close>
record sodium =
  crypto_secretbox_easy :: "buffer \<Rightarrow> buffer \<Rightarrow> buffer \<Rightarrow> buffer"
  crypto_secretbox_open_easy :: "buffer \<Rightarrow> buffer \<Rightarrow> buffer \<Rightarrow> string + buffer"

definition crypto_secretbox_KEYBYTES :: nat where
  "crypto_secretbox_KEYBYTES = 32"

definition crypto_secretbox_NONCEBYTES :: nat where
  "crypto_secretbox_NONCEBYTES = 24"

text \<open>The private field \<open>key\<close>: \<open>None\<close> once it has been zeroed.\<close>
record SecretKey =
  key :: "buffer option"

definition new_SecretKey :: "buffer \<Rightarrow> error + SecretKey" where
  "new_SecretKey k =
     (if length k = crypto_secretbox_KEYBYTES then Inr \<lparr>key = Some k\<rparr>
      else Inl (AssertionError ''expected key length to be secretbox KEYBYTES''))"

text \<open>\<open>randomBytes\<close> of the node runtime is a parameter: the bytes it returns for a length.\<close>
definition encrypt ::
  "sodium \<Rightarrow> (nat \<Rightarrow> buffer) \<Rightarrow> SecretKey \<Rightarrow> buffer \<Rightarrow> error + buffer" where
  "encrypt so randomBytes sk data =
     (case key sk of
        None \<Rightarrow> Inl (AssertionError ''key has been zeroed'')
      | Some k \<Rightarrow>
          (let nonce = randomBytes crypto_secretbox_NONCEBYTES;
               enc = crypto_secretbox_easy so data nonce k
           in Inr (nonce @ enc)))"

definition new_DecryptError :: "string \<Rightarrow> error" where
  "new_DecryptError msg =
     (if msg = ''wrong secret key for the given ciphertext''
      then DecryptError INCORRECT_PASSWORD msg
      else DecryptError UNKNOWN msg)"

definition decrypt :: "sodium \<Rightarrow> SecretKey \<Rightarrow> buffer \<Rightarrow> error + buffer" where
  "decrypt so sk data =
     (case key sk of
        None \<Rightarrow> Inl (AssertionError ''key has been zeroed'')
      | Some k \<Rightarrow>
          if \<not> length data > crypto_secretbox_NONCEBYTES
          then Inl (AssertionError ''data must be at least NONCEBYTES + 1 bytes'')
          else
            (let nonce = take crypto_secretbox_NONCEBYTES data;
                 enc = drop crypto_secretbox_NONCEBYTES data
             in case crypto_secretbox_open_easy so enc nonce k of
                  Inl msg \<Rightarrow> Inl (new_DecryptError msg)
                | Inr dec \<Rightarrow> Inr dec))"

definition zero :: "SecretKey \<Rightarrow> SecretKey" where
  "zero sk = (case key sk of Some k \<Rightarrow> sk\<lparr>key := None\<rparr> | None \<Rightarrow> sk)"

section \<open>The rules the properties are stated with\<close>

text \<open>
  The matching rule as the specification words it, on the set of watched addresses: an
  ownership change matches when the address derived from the minter or the hash of the
  script is watched, a mint or a reward when its destination is watched, a transfer when
  its source or its destination is watched.
\<close>
definition matches :: "godcoin \<Rightarrow> ScriptHash set \<Rightarrow> Tx \<Rightarrow> bool" where
  "matches lib W t =
     (case t of
        OwnerTxV0 minter script \<Rightarrow> hash lib (toScript lib minter) \<in> W \<or> hash lib script \<in> W
      | MintTxV0 to \<Rightarrow> to \<in> W
      | RewardTxV0 to \<Rightarrow> to \<in> W
      | TransferTxV0 from to \<Rightarrow> from \<in> W \<or> to \<in> W
      | OtherTx _ \<Rightarrow> False)"

text \<open>A transaction of one of the four variants the synchronizer knows.\<close>
fun recognized :: "Tx \<Rightarrow> bool" where
  "recognized (OtherTx _) = False"
| "recognized _ = True"

text \<open>The height a delivered block carries.\<close>
fun msgHeight :: "BlockMsg \<Rightarrow> Long" where
  "msgHeight (FullBlock b) = height (header b)"
| "msgHeight (HeaderOnly hdr sig) = height hdr"

text \<open>
  The fields that only the handlers of the transport's events and \<open>startSync\<close> write:
  two states agree on them.
\<close>
definition sameControl :: "state \<Rightarrow> state \<Rightarrow> bool" where
  "sameControl s s' \<longleftrightarrow>
     watchAddrs s' = watchAddrs s \<and> pendingBlocks s' = pendingBlocks s \<and>
     syncStatus s' = syncStatus s \<and> fullSyncRetryTimer s' = fullSyncRetryTimer s \<and>
     fullSyncInProgress s' = fullSyncInProgress s \<and> timers s' = timers s \<and>
     timerSeq s' = timerSeq s \<and> inflight s' = inflight s"

text \<open>
  An answer to a balance query that carries a balance, and the balance it carries (0 for
  a rejected request or an answer of another type).
\<close>
fun answered :: "error + RpcRes \<Rightarrow> bool" where
  "answered (Inr (GetAddressInfoRes b)) = True"
| "answered _ = False"

fun balanceIn :: "error + RpcRes \<Rightarrow> Asset" where
  "balanceIn (Inr (GetAddressInfoRes b)) = b"
| "balanceIn _ = 0"

text \<open>
  The blocks of a pending queue that are not stale, as the specification words it: a block
  whose height is at most the local height is skipped, any other is applied and its
  height becomes the local height.
\<close>
fun freshBlocks :: "Long \<Rightarrow> Block list \<Rightarrow> Block list" where
  "freshBlocks h [] = []"
| "freshBlocks h (b # bs) =
     (if height (header b) \<le> h then freshBlocks h bs
      else b # freshBlocks (height (header b)) bs)"


section \<open>Example values\<close>

text \<open>A stand-in for the two library functions: a script is the key, its hash the reversed bytes.\<close>
definition ex_lib :: godcoin where
  "ex_lib = \<lparr>toScript = (\<lambda>pk. case pk of PublicKey b \<Rightarrow> Script b),
             hash = (\<lambda>sc. case sc of Script b \<Rightarrow> ScriptHash (rev b))\<rparr>"

definition addrA :: ScriptHash where "addrA = ScriptHash [1]"
definition addrB :: ScriptHash where "addrB = ScriptHash [2]"
definition addrC :: ScriptHash where "addrC = ScriptHash [3]"

text \<open>A synchronizer that watches A and B, caught up at height 100 with an empty log.\<close>
definition ex_state :: state where
  "ex_state =
     \<lparr>watchAddrs = [addrA, addrB], currentHeight = 100, pendingBlocks = [],
      syncStatus = Complete, fullSyncRetryTimer = None, fullSyncInProgress = False,
      db = \<lparr>kvSyncHeight = Some 100, kvTotalBalance = None, txsRows = []\<rparr>,
      emitted = [], rpcLog = [], timers = [], timerSeq = 0, inflight = []\<rparr>"

definition transferBA :: TxVariant where
  "transferBA = \<lparr>tx = TransferTxV0 addrB addrA, signature_pairs = []\<rparr>"

definition transferCC :: TxVariant where
  "transferCC = \<lparr>tx = TransferTxV0 addrC addrC, signature_pairs = []\<rparr>"

definition otherTx :: TxVariant where
  "otherTx = \<lparr>tx = OtherTx [7], signature_pairs = []\<rparr>"

definition block101 :: Block where
  "block101 = \<lparr>header = \<lparr>height = 101\<rparr>, transactions = [transferCC, transferBA]\<rparr>"

text \<open>A remote node at height 100 that knows the balances of A and B.\<close>
definition ex_remote :: Remote where
  "ex_remote =
     \<lparr>subscribe = Inr SubscribeRes, setBlockFilter = Inr SetBlockFilterRes,
      getProperties = Inr (GetPropertiesRes 100),
      getBlockRange = (\<lambda>from to. \<lparr>rangeStart = 0, rangeItems = [], rangeEnd = None\<rparr>),
      getAddressInfo = (\<lambda>a. if a = addrA then Inr (GetAddressInfoRes 700)
                             else if a = addrB then Inr (GetAddressInfoRes 50)
                             else Inl (RpcError ''no such address''))\<rparr>"

definition block99 :: Block where
  "block99 = \<lparr>header = \<lparr>height = 99\<rparr>, transactions = [transferBA]\<rparr>"

definition blockBad :: Block where
  "blockBad = \<lparr>header = \<lparr>height = 102\<rparr>, transactions = [transferBA, otherTx, transferBA]\<rparr>"

text \<open>The same remote node when the transport is closed.\<close>
definition ex_remote_down :: Remote where
  "ex_remote_down = ex_remote\<lparr>getProperties := Inl (RpcError ''connection closed'')\<rparr>"

text \<open>A remote node that answers the balance query for A only.\<close>
definition ex_remote_partial :: Remote where
  "ex_remote_partial =
     ex_remote\<lparr>getAddressInfo := (\<lambda>a. if a = addrA then Inr (GetAddressInfoRes 700)
                                       else Inl (RpcError ''timed out''))\<rparr>"

definition block102 :: Block where
  "block102 = \<lparr>header = \<lparr>height = 102\<rparr>,
               transactions = [\<lparr>tx = RewardTxV0 addrB, signature_pairs = []\<rparr>]\<rparr>"

text \<open>The synchronizer as its constructor leaves it when the transport is not open yet.\<close>
definition ex_new :: state where
  "ex_new = ex_state\<lparr>syncStatus := Connecting\<rparr>"

text \<open>
  A stand-in for the secret box: a tag of 16 zero bytes, then the message with every byte
  incremented; and a source of random bytes that returns nines.
\<close>
definition ex_sodium :: sodium where
  "ex_sodium =
     \<lparr>crypto_secretbox_easy = (\<lambda>m n k. replicate 16 0 @ map (\<lambda>b. b + 1) m),
      crypto_secretbox_open_easy =
        (\<lambda>c n k. if length c < 16 then Inl ''ciphertext is too short''
                 else Inr (map (\<lambda>b. b - 1) (drop 16 c)))\<rparr>"

definition ex_randomBytes :: "nat \<Rightarrow> buffer" where
  "ex_randomBytes n = replicate n 9"

definition ex_key :: SecretKey where
  "ex_key = \<lparr>key = Some (replicate 32 7)\<rparr>"

section \<open>Properties\<close>

subsection \<open>Watched addresses and the matching rule\<close>

lemma Buffer_compare_eq_0: "Buffer_compare a b = 0 \<longleftrightarrow> a = b"
  by (induction a b rule: Buffer_compare.induct) auto

lemma findIndex_from_found: "0 \<le> i \<Longrightarrow> (findIndex_from p xs i > - 1) = (\<exists>x \<in> set xs. p x)"
  by (induction xs arbitrary: i) auto

lemma bytes_inj: "bytes a = bytes b \<longleftrightarrow> a = b"
  by (cases a; cases b) simp

lemma isWatched_iff: "isWatched s addr \<longleftrightarrow> addr \<in> set (watchAddrs s)"
  unfolding isWatched_def findIndex_def Let_def
  by (auto simp: findIndex_from_found Buffer_compare_eq_0 bytes_inj)

lemma txHasMatch_recognized:
  "recognized (tx w) \<Longrightarrow> txHasMatch lib s w = Inr (matches lib (set (watchAddrs s)) (tx w))"
  by (cases "tx w") (auto simp: matches_def isWatched_iff)

lemma txHasMatch_other: "\<not> recognized (tx w) \<Longrightarrow> txHasMatch lib s w = Inl ExhaustiveCheckFailed"
  by (cases "tx w") auto

lemma txHasMatch_watchAddrs:
  "watchAddrs s' = watchAddrs s \<Longrightarrow> txHasMatch lib s' w = txHasMatch lib s w"
  by (cases "tx w") (auto simp: isWatched_iff)

declare txHasMatch.simps [simp del]

lemma applyTxs_ok:
  "list_all (\<lambda>w. recognized (tx w)) ws \<Longrightarrow>
   \<exists>rows. applyTxs lib ws acc s =
      (Inr (if rows = [] then acc else Some ((case acc of None \<Rightarrow> [] | Some l \<Rightarrow> l) @ rows)),
       s\<lparr>db := (db s)\<lparr>txsRows := txsRows (db s) @ rows\<rparr>\<rparr>)
     \<and> map row_tx rows = filter (\<lambda>w. matches lib (set (watchAddrs s)) (tx w)) ws
     \<and> map row_id rows = [length (txsRows (db s)) ..< length (txsRows (db s)) + length rows]"
proof (induction ws arbitrary: acc s)
  case Nil
  then show ?case by simp
next
  case (Cons w ws)
  then have rw: "recognized (tx w)" and rws: "list_all (\<lambda>w. recognized (tx w)) ws" by simp_all
  show ?case
  proof (cases "matches lib (set (watchAddrs s)) (tx w)")
    case False
    from Cons.IH [OF rws, of acc s] obtain rows where
      "applyTxs lib ws acc s =
        (Inr (if rows = [] then acc else Some ((case acc of None \<Rightarrow> [] | Some l \<Rightarrow> l) @ rows)),
         s\<lparr>db := (db s)\<lparr>txsRows := txsRows (db s) @ rows\<rparr>\<rparr>)"
      "map row_tx rows = filter (\<lambda>w. matches lib (set (watchAddrs s)) (tx w)) ws"
      "map row_id rows = [length (txsRows (db s)) ..< length (txsRows (db s)) + length rows]"
      by blast
    with False rw show ?thesis
      by (intro exI [of _ rows]) (simp add: txHasMatch_recognized)
  next
    case True
    define row where "row = \<lparr>row_id = length (txsRows (db s)), row_tx = w\<rparr>"
    define s1 where "s1 = s\<lparr>db := (db s)\<lparr>txsRows := txsRows (db s) @ [row]\<rparr>\<rparr>"
    define acc1 where "acc1 = Some ((case acc of None \<Rightarrow> [] | Some l \<Rightarrow> l) @ [row])"
    have ins: "txsTable_insert w s = (row, s1)"
      by (simp add: txsTable_insert_def row_def s1_def Let_def)
    have wa: "watchAddrs s1 = watchAddrs s" by (simp add: s1_def)
    from Cons.IH [OF rws, of acc1 s1] obtain rows where r:
      "applyTxs lib ws acc1 s1 =
        (Inr (if rows = [] then acc1 else Some ((case acc1 of None \<Rightarrow> [] | Some l \<Rightarrow> l) @ rows)),
         s1\<lparr>db := (db s1)\<lparr>txsRows := txsRows (db s1) @ rows\<rparr>\<rparr>)"
      "map row_tx rows = filter (\<lambda>w. matches lib (set (watchAddrs s1)) (tx w)) ws"
      "map row_id rows = [length (txsRows (db s1)) ..< length (txsRows (db s1)) + length rows]"
      by blast
    have step: "applyTxs lib (w # ws) acc s = applyTxs lib ws acc1 s1"
      using True rw by (simp add: txHasMatch_recognized ins acc1_def)
    show ?thesis
    proof (intro exI [of _ "row # rows"] conjI)
      show "applyTxs lib (w # ws) acc s =
        (Inr (if row # rows = [] then acc
              else Some ((case acc of None \<Rightarrow> [] | Some l \<Rightarrow> l) @ row # rows)),
         s\<lparr>db := (db s)\<lparr>txsRows := txsRows (db s) @ row # rows\<rparr>\<rparr>)"
        unfolding step r(1) by (simp add: acc1_def s1_def)
      show "map row_tx (row # rows) = filter (\<lambda>w. matches lib (set (watchAddrs s)) (tx w)) (w # ws)"
        using True r(2) wa by (simp add: row_def)
      show "map row_id (row # rows) =
          [length (txsRows (db s)) ..< length (txsRows (db s)) + length (row # rows)]"
        using r(3) by (simp del: upt_Suc add: s1_def row_def upt_conv_Cons)
    qed
  qed
qed

subsection \<open>The block applier\<close>

lemma applyTxs_frame:
  "\<exists>rows. snd (applyTxs lib ws acc s) = s\<lparr>db := (db s)\<lparr>txsRows := txsRows (db s) @ rows\<rparr>\<rparr>"
proof (induction ws arbitrary: acc s)
  case Nil
  show ?case by (rule exI [of _ "[]"]) simp
next
  case (Cons w ws)
  show ?case
  proof (cases "txHasMatch lib s w")
    case (Inl e)
    then show ?thesis by (intro exI [of _ "[]"]) simp
  next
    case (Inr m)
    show ?thesis
    proof (cases m)
      case False
      with Inr Cons.IH [of acc s] show ?thesis by simp
    next
      case True
      define row where "row = \<lparr>row_id = length (txsRows (db s)), row_tx = w\<rparr>"
      define s1 where "s1 = s\<lparr>db := (db s)\<lparr>txsRows := txsRows (db s) @ [row]\<rparr>\<rparr>"
      define acc1 where "acc1 = Some ((case acc of None \<Rightarrow> [] | Some l \<Rightarrow> l) @ [row])"
      have ins: "txsTable_insert w s = (row, s1)"
        by (simp add: txsTable_insert_def row_def s1_def Let_def)
      from Cons.IH [of acc1 s1] obtain rows where
        r: "snd (applyTxs lib ws acc1 s1) = s1\<lparr>db := (db s1)\<lparr>txsRows := txsRows (db s1) @ rows\<rparr>\<rparr>"
        by blast
      have "applyTxs lib (w # ws) acc s = applyTxs lib ws acc1 s1"
        using True Inr by (simp add: ins acc1_def)
      with r show ?thesis
        by (intro exI [of _ "row # rows"]) (simp add: s1_def)
    qed
  qed
qed

lemma applyTxs_abort:
  "\<not> list_all (\<lambda>w. recognized (tx w)) ws \<Longrightarrow>
   \<exists>rows. applyTxs lib ws acc s =
      (Inl ExhaustiveCheckFailed, s\<lparr>db := (db s)\<lparr>txsRows := txsRows (db s) @ rows\<rparr>\<rparr>)
     \<and> map row_tx rows =
         filter (\<lambda>w. matches lib (set (watchAddrs s)) (tx w)) (takeWhile (\<lambda>w. recognized (tx w)) ws)"
proof (induction ws arbitrary: acc s)
  case Nil
  then show ?case by simp
next
  case (Cons w ws)
  show ?case
  proof (cases "recognized (tx w)")
    case False
    then show ?thesis
      by (intro exI [of _ "[]"]) (simp add: txHasMatch_other)
  next
    case rw: True
    with Cons.prems have rest: "\<not> list_all (\<lambda>w. recognized (tx w)) ws" by simp
    show ?thesis
    proof (cases "matches lib (set (watchAddrs s)) (tx w)")
      case False
      from Cons.IH [OF rest, of acc s] obtain rows where
        "applyTxs lib ws acc s =
          (Inl ExhaustiveCheckFailed, s\<lparr>db := (db s)\<lparr>txsRows := txsRows (db s) @ rows\<rparr>\<rparr>)"
        "map row_tx rows =
           filter (\<lambda>w. matches lib (set (watchAddrs s)) (tx w)) (takeWhile (\<lambda>w. recognized (tx w)) ws)"
        by blast
      with False rw show ?thesis
        by (intro exI [of _ rows]) (simp add: txHasMatch_recognized)
    next
      case True
      define row where "row = \<lparr>row_id = length (txsRows (db s)), row_tx = w\<rparr>"
      define s1 where "s1 = s\<lparr>db := (db s)\<lparr>txsRows := txsRows (db s) @ [row]\<rparr>\<rparr>"
      define acc1 where "acc1 = Some ((case acc of None \<Rightarrow> [] | Some l \<Rightarrow> l) @ [row])"
      have ins: "txsTable_insert w s = (row, s1)"
        by (simp add: txsTable_insert_def row_def s1_def Let_def)
      have wa: "watchAddrs s1 = watchAddrs s" by (simp add: s1_def)
      from Cons.IH [OF rest, of acc1 s1] obtain rows where r:
        "applyTxs lib ws acc1 s1 =
          (Inl ExhaustiveCheckFailed, s1\<lparr>db := (db s1)\<lparr>txsRows := txsRows (db s1) @ rows\<rparr>\<rparr>)"
        "map row_tx rows =
           filter (\<lambda>w. matches lib (set (watchAddrs s1)) (tx w)) (takeWhile (\<lambda>w. recognized (tx w)) ws)"
        by blast
      have "applyTxs lib (w # ws) acc s = applyTxs lib ws acc1 s1"
        using True rw by (simp add: txHasMatch_recognized ins acc1_def)
      with r wa True rw show ?thesis
        by (intro exI [of _ "row # rows"]) (simp add: s1_def row_def)
    qed
  qed
qed

lemma applyBlock_height:
  "(case applyBlock lib m s of
      (Inl e, s') \<Rightarrow> currentHeight s' = currentHeight s
    | (Inr r, s') \<Rightarrow> currentHeight s' = msgHeight m)"
proof (cases m)
  case (FullBlock b)
  obtain rows where "snd (applyTxs lib (transactions b) None s) =
      s\<lparr>db := (db s)\<lparr>txsRows := txsRows (db s) @ rows\<rparr>\<rparr>"
    using applyTxs_frame by blast
  then show ?thesis using FullBlock
    by (cases "applyTxs lib (transactions b) None s") (auto simp: applyBlock_def split: sum.splits)
next
  case (HeaderOnly hdr sig)
  then show ?thesis by (simp add: applyBlock_def)
qed

lemma applyBlock_frame:
  "\<exists>rows h. snd (applyBlock lib m s) =
      s\<lparr>db := (db s)\<lparr>txsRows := txsRows (db s) @ rows\<rparr>, currentHeight := h\<rparr>"
proof (cases m)
  case (FullBlock b)
  obtain rows where r: "snd (applyTxs lib (transactions b) None s) =
      s\<lparr>db := (db s)\<lparr>txsRows := txsRows (db s) @ rows\<rparr>\<rparr>"
    using applyTxs_frame by blast
  show ?thesis
  proof (cases "applyTxs lib (transactions b) None s")
    case (Pair res s')
    with r have s': "s' = s\<lparr>db := (db s)\<lparr>txsRows := txsRows (db s) @ rows\<rparr>\<rparr>" by simp
    show ?thesis
    proof (cases res)
      case (Inl e)
      with Pair FullBlock s' show ?thesis
        by (intro exI [of _ rows] exI [of _ "currentHeight s"]) (simp add: applyBlock_def)
    next
      case (Inr a)
      with Pair FullBlock s' show ?thesis
        by (intro exI [of _ rows] exI [of _ "height (header b)"]) (simp add: applyBlock_def)
    qed
  qed
next
  case (HeaderOnly hdr sig)
  then show ?thesis
    by (intro exI [of _ "[]"] exI [of _ "height hdr"]) (simp add: applyBlock_def)
qed

lemma drainPending_height_mono:
  "currentHeight s \<le> currentHeight (snd (drainPending lib bs acc s))"
proof (induction bs arbitrary: acc s)
  case Nil
  show ?case by simp
next
  case (Cons b bs)
  show ?case
  proof (cases "height (header b) \<le> currentHeight s")
    case True
    with Cons.IH [where acc = acc and s = s] show ?thesis by simp
  next
    case False
    then have lt: "currentHeight s \<le> height (header b)" by simp
    have h: "(case applyBlock lib (FullBlock b) s of
        (Inl e, s') \<Rightarrow> currentHeight s' = currentHeight s
      | (Inr r, s') \<Rightarrow> currentHeight s' = msgHeight (FullBlock b))"
      by (rule applyBlock_height)
    show ?thesis
    proof (cases "applyBlock lib (FullBlock b) s")
      case (Pair res s1)
      show ?thesis
      proof (cases res)
        case (Inl e)
        with Pair h False show ?thesis by simp
      next
        case (Inr updatedTxs)
        with Pair h have "currentHeight s1 = height (header b)" by simp
        with lt have le: "currentHeight s \<le> currentHeight s1" by simp
        have "\<And>acc'. currentHeight s1 \<le> currentHeight (snd (drainPending lib bs acc' s1))"
          by (rule Cons.IH)
        with le have "\<And>acc'. currentHeight s \<le> currentHeight (snd (drainPending lib bs acc' s1))"
          using order_trans by blast
        with Pair Inr False show ?thesis
          by (simp split: option.splits)
      qed
    qed
  qed
qed

lemma applyBlock_full_ok:
  assumes "list_all (\<lambda>w. recognized (tx w)) (transactions b)"
  shows "\<exists>rows. applyBlock lib (FullBlock b) s =
            (Inr (if rows = [] then None else Some rows),
             s\<lparr>db := (db s)\<lparr>txsRows := txsRows (db s) @ rows\<rparr>,
               currentHeight := height (header b)\<rparr>)
          \<and> map row_tx rows =
              filter (\<lambda>w. matches lib (set (watchAddrs s)) (tx w)) (transactions b)
          \<and> map row_id rows = [length (txsRows (db s)) ..< length (txsRows (db s)) + length rows]"
proof -
  from applyTxs_ok [OF assms, of lib None s] obtain rows where r:
    "applyTxs lib (transactions b) None s =
      (Inr (if rows = [] then None else Some ((case None of None \<Rightarrow> [] | Some l \<Rightarrow> l) @ rows)),
       s\<lparr>db := (db s)\<lparr>txsRows := txsRows (db s) @ rows\<rparr>\<rparr>)"
    "map row_tx rows = filter (\<lambda>w. matches lib (set (watchAddrs s)) (tx w)) (transactions b)"
    "map row_id rows = [length (txsRows (db s)) ..< length (txsRows (db s)) + length rows]"
    by blast
  show ?thesis
    using r by (intro exI [of _ rows]) (simp add: applyBlock_def)
qed

text \<open>
  C2. For a full block whose transactions are all of the four known variants:
  \<open>txHasMatch\<close> answers exactly the per-variant rule (ownership change: derived address
  of the minter or hash of the script watched; mint and reward: destination watched;
  transfer: source or destination watched); \<open>applyBlock\<close> inserts one row for each
  matched transaction, in the order of the block, with distinct row identifiers, and
  nothing else; a block that holds one transfer between two watched addresses yields
  one row.
\<close>
theorem match_rule_one_row_each:
  assumes "list_all (\<lambda>w. recognized (tx w)) (transactions b)"
  shows "(\<forall>w. recognized (tx w) \<longrightarrow>
            txHasMatch lib s w = Inr (matches lib (set (watchAddrs s)) (tx w)))
       \<and> (\<exists>rows. applyBlock lib (FullBlock b) s =
                   (Inr (if rows = [] then None else Some rows),
                    s\<lparr>db := (db s)\<lparr>txsRows := txsRows (db s) @ rows\<rparr>,
                      currentHeight := height (header b)\<rparr>)
                 \<and> map row_tx rows =
                     filter (\<lambda>w. matches lib (set (watchAddrs s)) (tx w)) (transactions b)
                 \<and> distinct (map row_id rows))
       \<and> (\<forall>src dst sigs.
            src \<in> set (watchAddrs s) \<and> dst \<in> set (watchAddrs s) \<and>
            transactions b = [\<lparr>tx = TransferTxV0 src dst, signature_pairs = sigs\<rparr>] \<longrightarrow>
            (\<exists>row. fst (applyBlock lib (FullBlock b) s) = Inr (Some [row])))"
proof (intro conjI allI impI)
  fix w :: TxVariant assume "recognized (tx w)"
  then show "txHasMatch lib s w = Inr (matches lib (set (watchAddrs s)) (tx w))"
    by (rule txHasMatch_recognized)
next
  from applyBlock_full_ok [OF assms, of lib s] obtain rows where r:
    "applyBlock lib (FullBlock b) s =
       (Inr (if rows = [] then None else Some rows),
        s\<lparr>db := (db s)\<lparr>txsRows := txsRows (db s) @ rows\<rparr>, currentHeight := height (header b)\<rparr>)"
    "map row_tx rows = filter (\<lambda>w. matches lib (set (watchAddrs s)) (tx w)) (transactions b)"
    "map row_id rows = [length (txsRows (db s)) ..< length (txsRows (db s)) + length rows]"
    by blast
  from r(3) have "distinct (map row_id rows)" by simp
  with r(1,2) show "\<exists>rows. applyBlock lib (FullBlock b) s =
                   (Inr (if rows = [] then None else Some rows),
                    s\<lparr>db := (db s)\<lparr>txsRows := txsRows (db s) @ rows\<rparr>,
                      currentHeight := height (header b)\<rparr>)
                 \<and> map row_tx rows =
                     filter (\<lambda>w. matches lib (set (watchAddrs s)) (tx w)) (transactions b)
                 \<and> distinct (map row_id rows)"
    by blast
next
  fix src dst sigs
  assume a: "src \<in> set (watchAddrs s) \<and> dst \<in> set (watchAddrs s) \<and>
            transactions b = [\<lparr>tx = TransferTxV0 src dst, signature_pairs = sigs\<rparr>]"
  from applyBlock_full_ok [OF assms, of lib s] obtain rows where r:
    "applyBlock lib (FullBlock b) s =
       (Inr (if rows = [] then None else Some rows),
        s\<lparr>db := (db s)\<lparr>txsRows := txsRows (db s) @ rows\<rparr>, currentHeight := height (header b)\<rparr>)"
    "map row_tx rows = filter (\<lambda>w. matches lib (set (watchAddrs s)) (tx w)) (transactions b)"
    by blast
  from a r(2) have "map row_tx rows = [\<lparr>tx = TransferTxV0 src dst, signature_pairs = sigs\<rparr>]"
    by (simp add: matches_def)
  then obtain row where "rows = [row]" by (cases rows) auto
  with r(1) show "\<exists>row. fst (applyBlock lib (FullBlock b) s) = Inr (Some [row])"
    by simp
qed

theorem match_rule_one_row_each_witness:
  "list_all (\<lambda>w. recognized (tx w)) (transactions block101)
   \<and> txHasMatch ex_lib ex_state transferCC = Inr False
   \<and> txHasMatch ex_lib ex_state transferBA = Inr True
   \<and> applyBlock ex_lib (FullBlock block101) ex_state =
       (Inr (Some [\<lparr>row_id = 0, row_tx = transferBA\<rparr>]),
        ex_state\<lparr>db := (db ex_state)\<lparr>txsRows := [\<lparr>row_id = 0, row_tx = transferBA\<rparr>]\<rparr>,
                 currentHeight := 101\<rparr>)"
  using match_rule_one_row_each [of block101 ex_lib ex_state]
  by (simp add: block101_def transferCC_def transferBA_def ex_state_def ex_lib_def addrA_def
      addrB_def addrC_def applyBlock_def txHasMatch.simps isWatched_def findIndex_def
      txsTable_insert_def Let_def)

text \<open>
  C8. A transaction that is of none of the four known variants makes \<open>txHasMatch\<close>
  throw, and a full block that holds one makes \<open>applyBlock\<close> fail with that error:
  the rows of the matched transactions before it have been inserted, the transactions after
  it are not looked at and the height is left as it was.
\<close>
theorem unrecognized_variant_aborts:
  assumes "\<not> list_all (\<lambda>w. recognized (tx w)) (transactions b)"
  shows "(\<forall>w. \<not> recognized (tx w) \<longrightarrow> txHasMatch lib s w = Inl ExhaustiveCheckFailed)
       \<and> (\<exists>rows. applyBlock lib (FullBlock b) s =
                   (Inl ExhaustiveCheckFailed,
                    s\<lparr>db := (db s)\<lparr>txsRows := txsRows (db s) @ rows\<rparr>\<rparr>)
                 \<and> map row_tx rows =
                     filter (\<lambda>w. matches lib (set (watchAddrs s)) (tx w))
                       (takeWhile (\<lambda>w. recognized (tx w)) (transactions b)))"
proof (intro conjI allI impI)
  fix w :: TxVariant assume "\<not> recognized (tx w)"
  then show "txHasMatch lib s w = Inl ExhaustiveCheckFailed"
    by (rule txHasMatch_other)
next
  from applyTxs_abort [OF assms, of lib None s] obtain rows where r:
    "applyTxs lib (transactions b) None s =
       (Inl ExhaustiveCheckFailed, s\<lparr>db := (db s)\<lparr>txsRows := txsRows (db s) @ rows\<rparr>\<rparr>)"
    "map row_tx rows =
       filter (\<lambda>w. matches lib (set (watchAddrs s)) (tx w))
         (takeWhile (\<lambda>w. recognized (tx w)) (transactions b))"
    by blast
  then show "\<exists>rows. applyBlock lib (FullBlock b) s =
                   (Inl ExhaustiveCheckFailed,
                    s\<lparr>db := (db s)\<lparr>txsRows := txsRows (db s) @ rows\<rparr>\<rparr>)
                 \<and> map row_tx rows =
                     filter (\<lambda>w. matches lib (set (watchAddrs s)) (tx w))
                       (takeWhile (\<lambda>w. recognized (tx w)) (transactions b))"
    by (intro exI [of _ rows]) (simp add: applyBlock_def)
qed

theorem unrecognized_variant_aborts_witness:
  "\<not> list_all (\<lambda>w. recognized (tx w)) (transactions blockBad)
   \<and> txHasMatch ex_lib ex_state otherTx = Inl ExhaustiveCheckFailed
   \<and> applyBlock ex_lib (FullBlock blockBad) ex_state =
       (Inl ExhaustiveCheckFailed,
        ex_state\<lparr>db := (db ex_state)\<lparr>txsRows := [\<lparr>row_id = 0, row_tx = transferBA\<rparr>]\<rparr>\<rparr>)
   \<and> currentHeight (snd (applyBlock ex_lib (FullBlock blockBad) ex_state)) = 100"
  using unrecognized_variant_aborts [of blockBad ex_lib ex_state]
  by (simp add: blockBad_def otherTx_def transferBA_def ex_state_def ex_lib_def addrA_def
      addrB_def applyBlock_def txHasMatch.simps isWatched_def findIndex_def
      txsTable_insert_def Let_def)

text \<open>
  C5, as stated, fails: a block pushed while the status is \<open>Complete\<close> is applied
  whatever its height, and a block of height 99 takes the cursor from 100 to 99.
\<close>
theorem height_regresses_on_push:
  "\<not> currentHeight ex_state
       \<le> currentHeight (on_sub_msg ex_lib ex_remote (GetBlockRes block99) ex_state)"
  by (simp add: on_sub_msg_def block99_def transferBA_def ex_state_def ex_lib_def addrA_def
      addrB_def applyBlock_def txHasMatch.simps isWatched_def findIndex_def
      txsTable_insert_def updateTotalBalance_def ex_remote_def updateSyncHeight_def
      emitSyncUpdate_def Let_def)

text \<open>
  C5, amended. A successful \<open>applyBlock\<close> sets the local height to the height of the
  block it was given and a failed one leaves it as it was, so the height does not decrease
  across an apply whenever the block's height is at least the local height; the drain of
  the pending queue never decreases the height.
\<close>
theorem height_adopted_from_block:
  "(case applyBlock lib m s of
      (Inl e, s') \<Rightarrow> currentHeight s' = currentHeight s
    | (Inr r, s') \<Rightarrow> currentHeight s' = msgHeight m)
   \<and> (currentHeight s \<le> msgHeight m \<longrightarrow>
        currentHeight s \<le> currentHeight (snd (applyBlock lib m s)))
   \<and> currentHeight s \<le> currentHeight (snd (drainPending lib bs acc s))"
proof (intro conjI impI)
  show h: "(case applyBlock lib m s of
      (Inl e, s') \<Rightarrow> currentHeight s' = currentHeight s
    | (Inr r, s') \<Rightarrow> currentHeight s' = msgHeight m)"
    by (rule applyBlock_height)
  show "currentHeight s \<le> currentHeight (snd (drainPending lib bs acc s))"
    by (rule drainPending_height_mono)
  assume "currentHeight s \<le> msgHeight m"
  with h show "currentHeight s \<le> currentHeight (snd (applyBlock lib m s))"
    by (cases "applyBlock lib m s") (auto split: sum.splits)
qed

theorem height_adopted_from_block_witness:
  "currentHeight ex_state \<le> msgHeight (FullBlock block101)
   \<and> currentHeight (snd (applyBlock ex_lib (FullBlock block101) ex_state)) = 101
   \<and> currentHeight (snd (drainPending ex_lib [block99, block101, block99] [] ex_state)) = 101"
  using height_adopted_from_block [where lib = ex_lib and m = "FullBlock block101"
      and s = ex_state and bs = "[block99, block101, block99]" and acc = "[]"]
  by (simp add: block101_def block99_def transferBA_def transferCC_def ex_state_def ex_lib_def
      addrA_def addrB_def addrC_def applyBlock_def txHasMatch.simps isWatched_def findIndex_def
      txsTable_insert_def Let_def)

text \<open>
  C9. The close handler clears the in-progress flag, cancels the retry timer and empties
  its slot, sets the status to \<open>Connecting\<close> and emits a status-only update; the
  height, the pending queue, the watched addresses, the store, the request log and the
  attempts in flight are as before.
\<close>
theorem close_handler_effect:
  "on_close s =
     s\<lparr>fullSyncInProgress := False, fullSyncRetryTimer := None, syncStatus := Connecting,
       timers := (case fullSyncRetryTimer s of None \<Rightarrow> timers s | Some t \<Rightarrow> removeAll t (timers s)),
       emitted := emitted s @ [\<lparr>status = Connecting, newData = None\<rparr>]\<rparr>
   \<and> currentHeight (on_close s) = currentHeight s
   \<and> pendingBlocks (on_close s) = pendingBlocks s
   \<and> watchAddrs (on_close s) = watchAddrs s
   \<and> db (on_close s) = db s
   \<and> rpcLog (on_close s) = rpcLog s
   \<and> timerSeq (on_close s) = timerSeq s
   \<and> inflight (on_close s) = inflight s"
  by (cases "fullSyncRetryTimer s")
     (simp_all add: on_close_def clearTimeout_def emitSyncUpdate_def Let_def)

theorem close_handler_effect_witness:
  "on_close (ex_state\<lparr>fullSyncRetryTimer := Some 4, timers := [3, 4], fullSyncInProgress := True,
                      pendingBlocks := [block101]\<rparr>) =
     ex_state\<lparr>syncStatus := Connecting, timers := [3], pendingBlocks := [block101],
              emitted := [\<lparr>status = Connecting, newData = None\<rparr>]\<rparr>"
  using close_handler_effect [of "ex_state\<lparr>fullSyncRetryTimer := Some 4, timers := [3, 4],
      fullSyncInProgress := True, pendingBlocks := [block101]\<rparr>"]
  by (simp add: ex_state_def)

text \<open>
  C4. Whatever the remote node answers and whether \<open>performFullSync\<close> returns or
  throws, the pending queue is empty afterwards; so it is after the rest of \<open>startSync\<close>.
\<close>
theorem pending_queue_cleared_on_every_exit:
  "pendingBlocks (snd (performFullSync lib r s)) = []
   \<and> pendingBlocks (startSync_resume lib r oldStatus s) = []"
  by (simp add: performFullSync_def startSync_resume_def setTimeout_def Let_def
      split: prod.splits sum.splits)

theorem pending_queue_cleared_on_every_exit_witness:
  "fst (performFullSync ex_lib ex_remote_down (ex_state\<lparr>pendingBlocks := [block101]\<rparr>)) =
     Inl (RpcError ''connection closed'')
   \<and> pendingBlocks (snd (performFullSync ex_lib ex_remote_down
                           (ex_state\<lparr>pendingBlocks := [block101]\<rparr>))) = []
   \<and> fst (performFullSync ex_lib ex_remote (ex_state\<lparr>pendingBlocks := [block101]\<rparr>)) = Inr ()
   \<and> pendingBlocks (snd (performFullSync ex_lib ex_remote
                           (ex_state\<lparr>pendingBlocks := [block101]\<rparr>))) = []"
  using pending_queue_cleared_on_every_exit [of ex_lib ex_remote_down
          "ex_state\<lparr>pendingBlocks := [block101]\<rparr>" Connecting]
        pending_queue_cleared_on_every_exit [of ex_lib ex_remote
          "ex_state\<lparr>pendingBlocks := [block101]\<rparr>" Connecting]
  by (simp add: performFullSync_def performFullSync_try_def ex_remote_down_def ex_remote_def
      block101_def transferBA_def transferCC_def ex_state_def ex_lib_def
      addrA_def addrB_def addrC_def applyBlock_def txHasMatch.simps isWatched_def findIndex_def
      txsTable_insert_def updateTotalBalance_def updateSyncHeight_def emitSyncUpdate_def Let_def)

subsection \<open>The balance aggregator\<close>

lemma answered_cases:
  "answered p \<Longrightarrow> \<exists>b. p = Inr (GetAddressInfoRes b)"
  by (cases p rule: answered.cases) simp_all

lemma balances_all_answered:
  "list_all answered ps \<Longrightarrow>
   \<exists>rs. Promise_all ps = Inr rs \<and> sumBalances rs t = Inr (t + sum_list (map balanceIn ps))"
proof (induction ps arbitrary: t)
  case Nil
  then show ?case by simp
next
  case (Cons p ps)
  then obtain b where p: "p = Inr (GetAddressInfoRes b)" and rest: "list_all answered ps"
    using answered_cases by auto
  from Cons.IH [OF rest, of "t + b"] obtain rs where
    "Promise_all ps = Inr rs" "sumBalances rs (t + b) = Inr (t + b + sum_list (map balanceIn ps))"
    by blast
  with p show ?case by simp
qed

lemma balances_some_failed:
  "\<not> list_all answered ps \<Longrightarrow>
   (\<exists>e. Promise_all ps = Inl e) \<or> (\<exists>rs e. Promise_all ps = Inr rs \<and> sumBalances rs t = Inl e)"
proof (induction ps arbitrary: t)
  case Nil
  then show ?case by simp
next
  case (Cons p ps)
  show ?case
  proof (cases p)
    case (Inl e)
    then show ?thesis by simp
  next
    case (Inr res)
    show ?thesis
    proof (cases "answered p")
      case False
      with Inr have nb: "\<And>b. res \<noteq> GetAddressInfoRes b" by auto
      show ?thesis
      proof (cases "Promise_all ps")
        case (Inl e)
        with Inr show ?thesis by simp
      next
        case ok: (Inr rs)
        with Inr nb show ?thesis by (cases res) auto
      qed
    next
      case True
      then obtain b where b: "p = Inr (GetAddressInfoRes b)" using answered_cases by blast
      from True Cons.prems have "\<not> list_all answered ps" by simp
      from Cons.IH [OF this, of "t + b"] b show ?thesis by auto
    qed
  qed
qed

text \<open>
  C7. \<open>updateTotalBalance\<close> sends one balance query for each watched address. When
  every query is answered with a balance, it persists the sum of the balances and returns
  it; when a query is rejected or answered with another type, it fails and the store is
  as before: nothing partial is persisted.
\<close>
theorem balance_all_or_nothing:
  "rpcLog (snd (updateTotalBalance r s)) = rpcLog s @ map GetAddressInfo (watchAddrs s)
   \<and> (list_all (\<lambda>a. answered (getAddressInfo r a)) (watchAddrs s) \<longrightarrow>
        updateTotalBalance r s =
          (Inr (sum_list (map (\<lambda>a. balanceIn (getAddressInfo r a)) (watchAddrs s))),
           s\<lparr>rpcLog := rpcLog s @ map GetAddressInfo (watchAddrs s),
             db := (db s)\<lparr>kvTotalBalance :=
               Some (sum_list (map (\<lambda>a. balanceIn (getAddressInfo r a)) (watchAddrs s)))\<rparr>\<rparr>))
   \<and> (\<not> list_all (\<lambda>a. answered (getAddressInfo r a)) (watchAddrs s) \<longrightarrow>
        (\<exists>e. updateTotalBalance r s =
           (Inl e, s\<lparr>rpcLog := rpcLog s @ map GetAddressInfo (watchAddrs s)\<rparr>)))"
proof (intro conjI impI)
  show "rpcLog (snd (updateTotalBalance r s)) = rpcLog s @ map GetAddressInfo (watchAddrs s)"
    by (simp add: updateTotalBalance_def Let_def split: sum.splits)
next
  assume "list_all (\<lambda>a. answered (getAddressInfo r a)) (watchAddrs s)"
  then have "list_all answered (map (getAddressInfo r) (watchAddrs s))"
    by (simp add: list_all_iff)
  from balances_all_answered [OF this, of 0] obtain rs where
    "Promise_all (map (getAddressInfo r) (watchAddrs s)) = Inr rs"
    "sumBalances rs 0 = Inr (sum_list (map balanceIn (map (getAddressInfo r) (watchAddrs s))))"
    by auto
  then show "updateTotalBalance r s =
          (Inr (sum_list (map (\<lambda>a. balanceIn (getAddressInfo r a)) (watchAddrs s))),
           s\<lparr>rpcLog := rpcLog s @ map GetAddressInfo (watchAddrs s),
             db := (db s)\<lparr>kvTotalBalance :=
               Some (sum_list (map (\<lambda>a. balanceIn (getAddressInfo r a)) (watchAddrs s)))\<rparr>\<rparr>)"
    by (simp add: updateTotalBalance_def Let_def comp_def)
next
  assume "\<not> list_all (\<lambda>a. answered (getAddressInfo r a)) (watchAddrs s)"
  then have "\<not> list_all answered (map (getAddressInfo r) (watchAddrs s))"
    by (simp add: list_all_iff)
  from balances_some_failed [OF this, of 0]
  show "\<exists>e. updateTotalBalance r s =
           (Inl e, s\<lparr>rpcLog := rpcLog s @ map GetAddressInfo (watchAddrs s)\<rparr>)"
    by (auto simp: updateTotalBalance_def Let_def)
qed

theorem balance_all_or_nothing_witness:
  "list_all (\<lambda>a. answered (getAddressInfo ex_remote a)) (watchAddrs ex_state)
   \<and> updateTotalBalance ex_remote ex_state =
       (Inr 750, ex_state\<lparr>rpcLog := [GetAddressInfo addrA, GetAddressInfo addrB],
                          db := (db ex_state)\<lparr>kvTotalBalance := Some 750\<rparr>\<rparr>)
   \<and> \<not> list_all (\<lambda>a. answered (getAddressInfo ex_remote_partial a)) (watchAddrs ex_state)
   \<and> updateTotalBalance ex_remote_partial ex_state =
       (Inl (RpcError ''timed out''),
        ex_state\<lparr>rpcLog := [GetAddressInfo addrA, GetAddressInfo addrB]\<rparr>)"
  using balance_all_or_nothing [of ex_remote ex_state]
    balance_all_or_nothing [of ex_remote_partial ex_state]
  by (simp add: ex_remote_partial_def ex_remote_def ex_state_def addrA_def addrB_def
      updateTotalBalance_def Let_def)

subsection \<open>The drain of the pending queue\<close>

lemma drainPending_all_stale:
  "list_all (\<lambda>b. height (header b) \<le> currentHeight s) bs \<Longrightarrow>
   drainPending lib bs acc s = (Inr acc, s)"
  by (induction bs) simp_all

lemma drainPending_fresh:
  "list_all (\<lambda>b. list_all (\<lambda>w. recognized (tx w)) (transactions b)) bs \<Longrightarrow>
   \<exists>rows. drainPending lib bs acc s =
      (Inr (acc @ rows),
       s\<lparr>db := (db s)\<lparr>txsRows := txsRows (db s) @ rows\<rparr>,
         currentHeight :=
           last (currentHeight s # map (\<lambda>b. height (header b)) (freshBlocks (currentHeight s) bs))\<rparr>)
     \<and> map row_tx rows =
         concat (map (\<lambda>b. filter (\<lambda>w. matches lib (set (watchAddrs s)) (tx w)) (transactions b))
                   (freshBlocks (currentHeight s) bs))"
proof (induction bs arbitrary: acc s)
  case Nil
  show ?case by (rule exI [of _ "[]"]) simp
next
  case (Cons b bs)
  then have rb: "list_all (\<lambda>w. recognized (tx w)) (transactions b)"
    and rbs: "list_all (\<lambda>b. list_all (\<lambda>w. recognized (tx w)) (transactions b)) bs"
    by simp_all
  show ?case
  proof (cases "height (header b) \<le> currentHeight s")
    case True
    from Cons.IH [OF rbs, where acc = acc and s = s] obtain rows where
      "drainPending lib bs acc s =
        (Inr (acc @ rows),
         s\<lparr>db := (db s)\<lparr>txsRows := txsRows (db s) @ rows\<rparr>,
           currentHeight :=
             last (currentHeight s # map (\<lambda>b. height (header b)) (freshBlocks (currentHeight s) bs))\<rparr>)"
      "map row_tx rows =
         concat (map (\<lambda>b. filter (\<lambda>w. matches lib (set (watchAddrs s)) (tx w)) (transactions b))
                   (freshBlocks (currentHeight s) bs))"
      by blast
    with True show ?thesis by (intro exI [of _ rows]) simp
  next
    case False
    from applyBlock_full_ok [OF rb, of lib s] obtain rows1 where a:
      "applyBlock lib (FullBlock b) s =
         (Inr (if rows1 = [] then None else Some rows1),
          s\<lparr>db := (db s)\<lparr>txsRows := txsRows (db s) @ rows1\<rparr>,
            currentHeight := height (header b)\<rparr>)"
      "map row_tx rows1 = filter (\<lambda>w. matches lib (set (watchAddrs s)) (tx w)) (transactions b)"
      by blast
    define s1 where "s1 = s\<lparr>db := (db s)\<lparr>txsRows := txsRows (db s) @ rows1\<rparr>,
            currentHeight := height (header b)\<rparr>"
    have s1: "watchAddrs s1 = watchAddrs s" "currentHeight s1 = height (header b)"
      "txsRows (db s1) = txsRows (db s) @ rows1"
      by (simp_all add: s1_def)
    from Cons.IH [OF rbs, where acc = "acc @ rows1" and s = s1] obtain rows2 where d:
      "drainPending lib bs (acc @ rows1) s1 =
        (Inr ((acc @ rows1) @ rows2),
         s1\<lparr>db := (db s1)\<lparr>txsRows := txsRows (db s1) @ rows2\<rparr>,
           currentHeight :=
             last (currentHeight s1 # map (\<lambda>b. height (header b)) (freshBlocks (currentHeight s1) bs))\<rparr>)"
      "map row_tx rows2 =
         concat (map (\<lambda>b. filter (\<lambda>w. matches lib (set (watchAddrs s1)) (tx w)) (transactions b))
                   (freshBlocks (currentHeight s1) bs))"
      by blast
    have step: "drainPending lib (b # bs) acc s = drainPending lib bs (acc @ rows1) s1"
      using False a(1) by (simp add: s1_def)
    show ?thesis
    proof (intro exI [of _ "rows1 @ rows2"] conjI)
      show "drainPending lib (b # bs) acc s =
        (Inr (acc @ rows1 @ rows2),
         s\<lparr>db := (db s)\<lparr>txsRows := txsRows (db s) @ rows1 @ rows2\<rparr>,
           currentHeight :=
             last (currentHeight s #
                   map (\<lambda>b. height (header b)) (freshBlocks (currentHeight s) (b # bs)))\<rparr>)"
        unfolding step d(1) using False by (simp add: s1_def)
      show "map row_tx (rows1 @ rows2) =
         concat (map (\<lambda>b. filter (\<lambda>w. matches lib (set (watchAddrs s)) (tx w)) (transactions b))
                   (freshBlocks (currentHeight s) (b # bs)))"
        using False a(2) d(2) s1 by simp
    qed
  qed
qed

text \<open>
  C1. In the drain of the pending queue (the blocks holding transactions of the four known
  variants only): a block whose height is at most the local height is skipped, the rows
  and the state staying as they are, so a queue of stale blocks is a no-op; a block with a
  greater height is applied by \<open>applyBlock\<close> and its rows are appended to the rows of
  the cycle; over the whole queue the rows appended are those of the matched transactions
  of the blocks that are not stale, in the order of arrival.
\<close>
theorem drain_skips_stale_applies_fresh:
  assumes "list_all (\<lambda>b. list_all (\<lambda>w. recognized (tx w)) (transactions b)) bs"
  shows "(list_all (\<lambda>b. height (header b) \<le> currentHeight s) bs \<longrightarrow>
            drainPending lib bs acc s = (Inr acc, s))
       \<and> (\<forall>b rest. bs = b # rest \<and> height (header b) \<le> currentHeight s \<longrightarrow>
            drainPending lib bs acc s = drainPending lib rest acc s)
       \<and> (\<forall>b rest. bs = b # rest \<and> currentHeight s < height (header b) \<longrightarrow>
            (\<exists>rows s1. applyBlock lib (FullBlock b) s =
                          (Inr (if rows = [] then None else Some rows), s1)
                      \<and> drainPending lib bs acc s = drainPending lib rest (acc @ rows) s1))
       \<and> (\<exists>rows. drainPending lib bs acc s =
             (Inr (acc @ rows),
              s\<lparr>db := (db s)\<lparr>txsRows := txsRows (db s) @ rows\<rparr>,
                currentHeight :=
                  last (currentHeight s #
                        map (\<lambda>b. height (header b)) (freshBlocks (currentHeight s) bs))\<rparr>)
            \<and> map row_tx rows =
                concat (map (\<lambda>b. filter (\<lambda>w. matches lib (set (watchAddrs s)) (tx w))
                                    (transactions b))
                          (freshBlocks (currentHeight s) bs)))"
proof (intro conjI allI impI)
  assume "list_all (\<lambda>b. height (header b) \<le> currentHeight s) bs"
  then show "drainPending lib bs acc s = (Inr acc, s)"
    by (rule drainPending_all_stale)
next
  fix b rest
  assume "bs = b # rest \<and> height (header b) \<le> currentHeight s"
  then show "drainPending lib bs acc s = drainPending lib rest acc s" by simp
next
  fix b :: Block and rest :: "Block list"
  assume h: "bs = b # rest \<and> currentHeight s < height (header b)"
  with assms have "list_all (\<lambda>w. recognized (tx w)) (transactions b)" by simp
  from applyBlock_full_ok [OF this, of lib s] obtain rows where a:
    "applyBlock lib (FullBlock b) s =
       (Inr (if rows = [] then None else Some rows),
        s\<lparr>db := (db s)\<lparr>txsRows := txsRows (db s) @ rows\<rparr>, currentHeight := height (header b)\<rparr>)"
    by blast
  from h have "\<not> height (header b) \<le> currentHeight s" by (simp add: not_le)
  with h a have "drainPending lib bs acc s =
      drainPending lib rest (acc @ rows)
        (s\<lparr>db := (db s)\<lparr>txsRows := txsRows (db s) @ rows\<rparr>, currentHeight := height (header b)\<rparr>)"
    by simp
  with a show "\<exists>rows s1. applyBlock lib (FullBlock b) s =
                          (Inr (if rows = [] then None else Some rows), s1)
                      \<and> drainPending lib bs acc s = drainPending lib rest (acc @ rows) s1"
    by blast
next
  show "\<exists>rows. drainPending lib bs acc s =
             (Inr (acc @ rows),
              s\<lparr>db := (db s)\<lparr>txsRows := txsRows (db s) @ rows\<rparr>,
                currentHeight :=
                  last (currentHeight s #
                        map (\<lambda>b. height (header b)) (freshBlocks (currentHeight s) bs))\<rparr>)
            \<and> map row_tx rows =
                concat (map (\<lambda>b. filter (\<lambda>w. matches lib (set (watchAddrs s)) (tx w))
                                    (transactions b))
                          (freshBlocks (currentHeight s) bs))"
    by (rule drainPending_fresh [OF assms])
qed

theorem drain_skips_stale_applies_fresh_witness:
  "list_all (\<lambda>b. list_all (\<lambda>w. recognized (tx w)) (transactions b))
     [block99, block101, block101, block102, block99]
   \<and> drainPending ex_lib [block99] [] ex_state = (Inr [], ex_state)
   \<and> freshBlocks (currentHeight ex_state) [block99, block101, block101, block102, block99] =
       [block101, block102]
   \<and> drainPending ex_lib [block99, block101, block101, block102, block99] [] ex_state =
       (Inr [\<lparr>row_id = 0, row_tx = transferBA\<rparr>,
             \<lparr>row_id = 1, row_tx = \<lparr>tx = RewardTxV0 addrB, signature_pairs = []\<rparr>\<rparr>],
        ex_state\<lparr>db := (db ex_state)\<lparr>txsRows :=
                    [\<lparr>row_id = 0, row_tx = transferBA\<rparr>,
                     \<lparr>row_id = 1, row_tx = \<lparr>tx = RewardTxV0 addrB, signature_pairs = []\<rparr>\<rparr>]\<rparr>,
                 currentHeight := 102\<rparr>)"
  using drain_skips_stale_applies_fresh [of "[block99, block101, block101, block102, block99]"
      ex_state ex_lib "[]"]
  by (simp add: block99_def block101_def block102_def transferBA_def transferCC_def ex_state_def
      ex_lib_def addrA_def addrB_def addrC_def applyBlock_def txHasMatch.simps isWatched_def
      findIndex_def txsTable_insert_def Let_def)

subsection \<open>The handlers of the transport's events\<close>

lemma sameControl_refl: "sameControl s s"
  by (simp add: sameControl_def)

lemma sameControl_trans: "sameControl s s1 \<Longrightarrow> sameControl s1 s2 \<Longrightarrow> sameControl s s2"
  by (simp add: sameControl_def)

lemma sameControl_applyBlock: "sameControl s (snd (applyBlock lib m s))"
proof -
  obtain rows h where "snd (applyBlock lib m s) =
      s\<lparr>db := (db s)\<lparr>txsRows := txsRows (db s) @ rows\<rparr>, currentHeight := h\<rparr>"
    using applyBlock_frame by blast
  then show ?thesis by (simp add: sameControl_def)
qed

lemma sameControl_updateSyncHeight: "sameControl s (updateSyncHeight s)"
  by (simp add: sameControl_def updateSyncHeight_def)

lemma sameControl_emitSyncUpdate: "sameControl s (emitSyncUpdate u s)"
  by (simp add: sameControl_def emitSyncUpdate_def)

lemma sameControl_updateTotalBalance: "sameControl s (snd (updateTotalBalance r s))"
  by (simp add: sameControl_def updateTotalBalance_def Let_def split: sum.splits)

lemma sameControl_rangeLoop: "sameControl s (snd (rangeLoop lib items time acc s))"
proof (induction items arbitrary: time acc s)
  case Nil
  show ?case by (simp add: sameControl_refl)
next
  case (Cons item items)
  obtain filteredBlock curTime where item: "item = (filteredBlock, curTime)" by (cases item)
  obtain res s1 where a: "applyBlock lib filteredBlock s = (res, s1)"
    by (cases "applyBlock lib filteredBlock s")
  have s1: "sameControl s s1" using sameControl_applyBlock [of s lib filteredBlock] a by simp
  have u: "sameControl s (updateSyncHeight s1)"
    using s1 sameControl_updateSyncHeight sameControl_trans by blast
  have uu: "sameControl s (updateSyncHeight (updateSyncHeight s1))"
    using u sameControl_updateSyncHeight sameControl_trans by blast
  have rest: "\<And>t a s'. sameControl s s' \<Longrightarrow> sameControl s (snd (rangeLoop lib items t a s'))"
    using Cons.IH sameControl_trans by blast
  show ?case
    using item a s1 u uu rest
    by (cases res) (auto split: option.splits)
qed

lemma sameControl_rangeSync: "sameControl s (snd (rangeSync lib r chainHeight s))"
proof -
  define s1 where "s1 = s\<lparr>rpcLog := rpcLog s @ [GetBlockRange (currentHeight s + 1) chainHeight]\<rparr>"
  define stream where "stream = getBlockRange r (currentHeight s + 1) chainHeight"
  obtain acc s2 where l: "rangeLoop lib (rangeItems stream) (rangeStart stream) [] s1 = (acc, s2)"
    by (cases "rangeLoop lib (rangeItems stream) (rangeStart stream) [] s1")
  have "sameControl s s1" by (simp add: s1_def sameControl_def)
  moreover have "sameControl s1 s2"
    using sameControl_rangeLoop [of s1 lib "rangeItems stream" "rangeStart stream" "[]"] l by simp
  ultimately have "sameControl s s2" using sameControl_trans by blast
  then show ?thesis
    unfolding rangeSync_def Let_def s1_def [symmetric] stream_def [symmetric]
    using l by (simp split: option.splits)
qed

lemma sameControl_drainPending: "sameControl s (snd (drainPending lib bs acc s))"
proof (induction bs arbitrary: acc s)
  case Nil
  show ?case by (simp add: sameControl_refl)
next
  case (Cons b bs)
  obtain res s1 where a: "applyBlock lib (FullBlock b) s = (res, s1)"
    by (cases "applyBlock lib (FullBlock b) s")
  have s1: "sameControl s s1" using sameControl_applyBlock [of s lib "FullBlock b"] a by simp
  have rest: "\<And>a. sameControl s (snd (drainPending lib bs a s1))"
    using s1 Cons.IH sameControl_trans by blast
  show ?case
    using a s1 rest Cons.IH [of s]
    by (cases res) (auto split: option.splits)
qed

text \<open>What the try block of performFullSync leaves as it was, and what it does to the status.\<close>
lemma performFullSync_try_control:
  "inflight (snd (performFullSync_try lib r s)) = inflight s
   \<and> fullSyncInProgress (snd (performFullSync_try lib r s)) = fullSyncInProgress s
   \<and> timers (snd (performFullSync_try lib r s)) = timers s
   \<and> timerSeq (snd (performFullSync_try lib r s)) = timerSeq s
   \<and> fullSyncRetryTimer (snd (performFullSync_try lib r s)) = fullSyncRetryTimer s
   \<and> watchAddrs (snd (performFullSync_try lib r s)) = watchAddrs s
   \<and> (case fst (performFullSync_try lib r s) of
         Inl e \<Rightarrow> syncStatus (snd (performFullSync_try lib r s)) = syncStatus s
       | Inr u \<Rightarrow> syncStatus (snd (performFullSync_try lib r s)) = Complete)"
proof -
  define s1 where "s1 = s\<lparr>rpcLog := rpcLog s @ [GetProperties]\<rparr>"
  have c1: "sameControl s s1" by (simp add: s1_def sameControl_def)
  show ?thesis
  proof (cases "getProperties r")
    case (Inl e)
    then show ?thesis by (simp add: performFullSync_try_def Let_def)
  next
    case (Inr body)
    show ?thesis
    proof (cases "\<exists>chainHeight. body = GetPropertiesRes chainHeight")
      case False
      with Inr show ?thesis
        by (cases body) (simp_all add: performFullSync_try_def Let_def)
    next
      case True
      then obtain chainHeight where body: "body = GetPropertiesRes chainHeight" by blast
      obtain res2 s2 where rg:
        "(if currentHeight s1 < chainHeight then rangeSync lib r chainHeight s1
          else (Inr [], s1)) = (res2, s2)"
        by (cases "if currentHeight s1 < chainHeight then rangeSync lib r chainHeight s1
          else (Inr [], s1)")
      have "sameControl s1 s2"
        using rg sameControl_rangeSync [of s1 lib r chainHeight]
        by (auto simp: sameControl_refl split: if_splits)
      with c1 have c2: "sameControl s s2" using sameControl_trans by blast
      show ?thesis
      proof (cases res2)
        case (Inl e)
        with Inr body rg c2 show ?thesis
          unfolding performFullSync_try_def Let_def s1_def [symmetric]
          by (simp add: sameControl_def)
      next
        case ok2: (Inr acc)
        obtain res3 s3 where ub: "updateTotalBalance r s2 = (res3, s3)"
          by (cases "updateTotalBalance r s2")
        have "sameControl s2 s3" using ub sameControl_updateTotalBalance [of s2 r] by simp
        with c2 have c3: "sameControl s s3" using sameControl_trans by blast
        show ?thesis
        proof (cases res3)
          case (Inl e)
          with Inr body rg ok2 ub c3 show ?thesis
            unfolding performFullSync_try_def Let_def s1_def [symmetric]
            by (simp add: sameControl_def)
        next
          case ok3: (Inr totalBal)
          obtain res4 s4 where dr: "drainPending lib (pendingBlocks s3) acc s3 = (res4, s4)"
            by (cases "drainPending lib (pendingBlocks s3) acc s3")
          have "sameControl s3 s4"
            using dr sameControl_drainPending [of s3 lib "pendingBlocks s3" acc] by simp
          with c3 have c4: "sameControl s s4" using sameControl_trans by blast
          show ?thesis
          proof (cases res4)
            case (Inl e)
            with Inr body rg ok2 ub ok3 dr c4 show ?thesis
              unfolding performFullSync_try_def Let_def s1_def [symmetric]
              by (simp add: sameControl_def)
          next
            case ok4: (Inr acc')
            with Inr body rg ok2 ub ok3 dr c4 show ?thesis
              unfolding performFullSync_try_def Let_def s1_def [symmetric]
              by (simp add: sameControl_def updateSyncHeight_def emitSyncUpdate_def)
          qed
        qed
      qed
    qed
  qed
qed

lemma performFullSync_control:
  "inflight (snd (performFullSync lib r s)) = inflight s
   \<and> fullSyncInProgress (snd (performFullSync lib r s)) = fullSyncInProgress s
   \<and> (case fst (performFullSync lib r s) of
         Inl e \<Rightarrow> syncStatus (snd (performFullSync lib r s)) = syncStatus s
       | Inr u \<Rightarrow> syncStatus (snd (performFullSync lib r s)) = Complete)"
  using performFullSync_try_control [of lib r s]
  by (cases "performFullSync_try lib r s") (simp add: performFullSync_def split: sum.splits)

lemma configure_control:
  "inflight (configure r s) = inflight s \<and> fullSyncInProgress (configure r s) = fullSyncInProgress s
   \<and> syncStatus (configure r s) = syncStatus s"
  by (simp add: configure_def Let_def split: sum.splits)

lemma startSync_resume_control:
  "inflight (startSync_resume lib r oldStatus s) = inflight s
   \<and> \<not> fullSyncInProgress (startSync_resume lib r oldStatus s)
   \<and> (syncStatus (startSync_resume lib r oldStatus s) = syncStatus s
      \<or> syncStatus (startSync_resume lib r oldStatus s) = Complete)"
proof -
  define s1 where "s1 = (if oldStatus = Connecting then configure r s else s)"
  have s1: "inflight s1 = inflight s" "syncStatus s1 = syncStatus s"
    using configure_control [of r s] by (simp_all add: s1_def)
  obtain res s2 where p: "performFullSync lib r s1 = (res, s2)"
    by (cases "performFullSync lib r s1")
  from performFullSync_control [of lib r s1] p s1
  have s2: "inflight s2 = inflight s"
    "(case res of Inl e \<Rightarrow> syncStatus s2 = syncStatus s | Inr u \<Rightarrow> syncStatus s2 = Complete)"
    by (auto split: sum.splits)
  show ?thesis
    unfolding startSync_resume_def Let_def s1_def [symmetric]
    using p s2 by (cases res) (simp_all add: setTimeout_def)
qed

lemma on_sub_msg_control:
  "inflight (on_sub_msg lib r res s) = inflight s
   \<and> fullSyncInProgress (on_sub_msg lib r res s) = fullSyncInProgress s
   \<and> syncStatus (on_sub_msg lib r res s) = syncStatus s"
proof (cases "\<exists>block. res = GetBlockRes block")
  case False
  then show ?thesis by (cases res) (simp_all add: on_sub_msg_def)
next
  case True
  then obtain block where res: "res = GetBlockRes block" by blast
  show ?thesis
  proof (cases "syncStatus s \<noteq> Complete")
    case True
    with res show ?thesis by (simp add: on_sub_msg_def)
  next
    case False
    obtain ra s1 where a: "applyBlock lib (FullBlock block) s = (ra, s1)"
      by (cases "applyBlock lib (FullBlock block) s")
    have c1: "sameControl s s1" using sameControl_applyBlock [of s lib "FullBlock block"] a by simp
    obtain rb s2 where b: "updateTotalBalance r s1 = (rb, s2)"
      by (cases "updateTotalBalance r s1")
    have "sameControl s1 s2" using sameControl_updateTotalBalance [of s1 r] b by simp
    with c1 have c2: "sameControl s s2" using sameControl_trans by blast
    show ?thesis
      using res False a b c1 c2
      by (cases ra; cases rb)
         (auto simp: on_sub_msg_def sameControl_def updateSyncHeight_def emitSyncUpdate_def
               split: option.splits)
  qed
qed

lemma startSync_begin_control:
  "startSync_begin s =
     (if fullSyncInProgress s then s
      else s\<lparr>fullSyncInProgress := True, fullSyncRetryTimer := None,
             timers := (case fullSyncRetryTimer s of None \<Rightarrow> timers s
                        | Some t \<Rightarrow> removeAll t (timers s)),
             syncStatus := InProgress,
             emitted := emitted s @ [\<lparr>status = InProgress, newData = None\<rparr>],
             inflight := inflight s @ [syncStatus s]\<rparr>)"
  by (cases "fullSyncRetryTimer s")
     (simp_all add: startSync_begin_def clearTimeout_def emitSyncUpdate_def Let_def)





lemmas ex_eval =
  ex_new_def ex_state_def ex_remote_def ex_lib_def addrA_def addrB_def addrC_def
  block101_def transferBA_def transferCC_def
  new_Synchronizer_def startSync_begin_def startSync_resume_def configure_def
  performFullSync_def performFullSync_try_def rangeSync_def updateTotalBalance_def
  applyBlock_def txHasMatch.simps isWatched_def findIndex_def txsTable_insert_def
  updateSyncHeight_def emitSyncUpdate_def clearTimeout_def setTimeout_def on_close_def
  on_sub_msg_def Let_def



text \<open>
  C6. The status is one of \<open>Connecting\<close>, \<open>InProgress\<close> and \<open>Complete\<close>, and it
  changes only where the synchronizer's own handlers set it: the constructor leaves
  \<open>Connecting\<close> (\<open>InProgress\<close> when the transport is open already), an open or a
  firing of the retry timer sets \<open>InProgress\<close> unless a catch-up is in progress, the
  close handler sets \<open>Connecting\<close>, the return of a catch-up attempt leaves it or sets
  \<open>Complete\<close>, and a pushed message never changes it.
\<close>
theorem status_driven_by_handlers:
  "(syncStatus s = Connecting \<or> syncStatus s = InProgress \<or> syncStatus s = Complete)
   \<and> (\<forall>addrs h isOpen store s0.
         new_Synchronizer addrs True h isOpen store = Inr s0 \<longrightarrow>
         syncStatus s0 = (if isOpen then InProgress else Connecting))
   \<and> syncStatus (step lib Open s) = (if fullSyncInProgress s then syncStatus s else InProgress)
   \<and> syncStatus (step lib (RetryFire t) s) =
       (if fullSyncInProgress s then syncStatus s else InProgress)
   \<and> syncStatus (step lib Close s) = Connecting
   \<and> syncStatus (step lib (SubMsg r res) s) = syncStatus s
   \<and> (syncStatus (step lib (Resume r) s) = syncStatus s
      \<or> syncStatus (step lib (Resume r) s) = Complete)"
proof (intro conjI allI impI)
  show "syncStatus s = Connecting \<or> syncStatus s = InProgress \<or> syncStatus s = Complete"
    by (cases "syncStatus s") simp_all
next
  fix addrs h isOpen store s0
  assume "new_Synchronizer addrs True h isOpen store = Inr s0"
  then show "syncStatus s0 = (if isOpen then InProgress else Connecting)"
    by (auto simp: new_Synchronizer_def startSync_begin_control Let_def split: if_splits)
next
  show "syncStatus (step lib Open s) = (if fullSyncInProgress s then syncStatus s else InProgress)"
    by (simp add: startSync_begin_control)
  show "syncStatus (step lib (RetryFire t) s) =
       (if fullSyncInProgress s then syncStatus s else InProgress)"
    by (simp add: startSync_begin_control)
  show "syncStatus (step lib Close s) = Connecting"
    by (cases "fullSyncRetryTimer s")
       (simp_all add: on_close_def clearTimeout_def emitSyncUpdate_def Let_def)
  show "syncStatus (step lib (SubMsg r res) s) = syncStatus s"
    using on_sub_msg_control [of lib r res s] by simp
  show "syncStatus (step lib (Resume r) s) = syncStatus s
      \<or> syncStatus (step lib (Resume r) s) = Complete"
  proof (cases "inflight s")
    case Nil
    then show ?thesis by simp
  next
    case (Cons oldStatus rest)
    with startSync_resume_control [of lib r oldStatus "s\<lparr>inflight := rest\<rparr>"]
    show ?thesis by simp
  qed
qed

theorem status_driven_by_handlers_witness:
  "new_Synchronizer [addrA, addrB] True 100 False (db ex_state) = Inr ex_new
   \<and> syncStatus ex_new = Connecting
   \<and> syncStatus (step ex_lib Open ex_new) = InProgress
   \<and> syncStatus (step ex_lib (SubMsg ex_remote (GetBlockRes block101)) (step ex_lib Open ex_new))
       = InProgress
   \<and> syncStatus (step ex_lib (Resume ex_remote) (step ex_lib Open ex_new)) = Complete
   \<and> syncStatus (step ex_lib Close (step ex_lib (Resume ex_remote) (step ex_lib Open ex_new)))
       = Connecting"
proof -
  have h: "new_Synchronizer [addrA, addrB] True 100 False (db ex_state) = Inr ex_new"
    by (simp add: new_Synchronizer_def ex_new_def ex_state_def)
  have f: "\<not> fullSyncInProgress ex_new"
    by (simp add: ex_new_def ex_state_def)
  have c0: "syncStatus ex_new = Connecting"
    using status_driven_by_handlers [of ex_new ex_lib 0 ex_remote "GetBlockRes block101"] h
    by simp
  have c1: "syncStatus (step ex_lib Open ex_new) = InProgress"
    using status_driven_by_handlers [of ex_new ex_lib 0 ex_remote "GetBlockRes block101"] f
    by simp
  have c2: "syncStatus (step ex_lib (SubMsg ex_remote (GetBlockRes block101))
              (step ex_lib Open ex_new)) = InProgress"
    using status_driven_by_handlers [of "step ex_lib Open ex_new" ex_lib 0 ex_remote
        "GetBlockRes block101"] c1
    by simp
  have c3: "syncStatus (step ex_lib (Resume ex_remote) (step ex_lib Open ex_new)) = Complete"
    by (simp add: ex_eval)
  have c4: "syncStatus (step ex_lib Close
              (step ex_lib (Resume ex_remote) (step ex_lib Open ex_new))) = Connecting"
    using status_driven_by_handlers [of "step ex_lib (Resume ex_remote) (step ex_lib Open ex_new)"
        ex_lib 0 ex_remote "GetBlockRes block101"]
    by blast
  show ?thesis by (intro conjI h c0 c1 c2 c3 c4)
qed

subsection \<open>The secret key\<close>

text \<open>
  C10. For a key that has not been zeroed, when \<open>randomBytes\<close> returns a nonce of the
  length asked for and the secret box opens what it sealed under the same nonce and key
  (to a ciphertext that is not empty), \<open>decrypt\<close> returns the data that \<open>encrypt\<close>
  was given. Once the key has been zeroed, \<open>encrypt\<close> and \<open>decrypt\<close> both fail
  their assertion.
\<close>
theorem decrypt_inverts_encrypt:
  assumes "key sk = Some k"
    and "length (randomBytes crypto_secretbox_NONCEBYTES) = crypto_secretbox_NONCEBYTES"
    and "crypto_secretbox_easy so d (randomBytes crypto_secretbox_NONCEBYTES) k \<noteq> []"
    and "crypto_secretbox_open_easy so
           (crypto_secretbox_easy so d (randomBytes crypto_secretbox_NONCEBYTES) k)
           (randomBytes crypto_secretbox_NONCEBYTES) k = Inr d"
  shows "(\<exists>c. encrypt so randomBytes sk d = Inr c \<and> decrypt so sk c = Inr d)
       \<and> key (zero sk) = None
       \<and> encrypt so randomBytes (zero sk) d = Inl (AssertionError ''key has been zeroed'')
       \<and> decrypt so (zero sk) c' = Inl (AssertionError ''key has been zeroed'')"
proof (intro conjI)
  define nonce where "nonce = randomBytes crypto_secretbox_NONCEBYTES"
  define enc where "enc = crypto_secretbox_easy so d nonce k"
  have e: "encrypt so randomBytes sk d = Inr (nonce @ enc)"
    using assms(1) by (simp add: encrypt_def Let_def nonce_def enc_def)
  have len: "length nonce = crypto_secretbox_NONCEBYTES" "enc \<noteq> []"
    using assms(2,3) by (simp_all add: nonce_def enc_def)
  then have "length (nonce @ enc) > crypto_secretbox_NONCEBYTES"
    "take crypto_secretbox_NONCEBYTES (nonce @ enc) = nonce"
    "drop crypto_secretbox_NONCEBYTES (nonce @ enc) = enc"
    by simp_all
  moreover have "crypto_secretbox_open_easy so enc nonce k = Inr d"
    using assms(4) by (simp add: nonce_def enc_def)
  ultimately have "decrypt so sk (nonce @ enc) = Inr d"
    using assms(1) by (simp add: decrypt_def Let_def)
  with e show "\<exists>c. encrypt so randomBytes sk d = Inr c \<and> decrypt so sk c = Inr d"
    by blast
  show z: "key (zero sk) = None"
    using assms(1) by (simp add: zero_def)
  show "encrypt so randomBytes (zero sk) d = Inl (AssertionError ''key has been zeroed'')"
    using z by (simp add: encrypt_def)
  show "decrypt so (zero sk) c' = Inl (AssertionError ''key has been zeroed'')"
    using z by (simp add: decrypt_def)
qed

theorem decrypt_inverts_encrypt_witness:
  "new_SecretKey (replicate 32 7) = Inr ex_key
   \<and> encrypt ex_sodium ex_randomBytes ex_key [1, 2, 3] =
       Inr (replicate 24 9 @ replicate 16 0 @ [2, 3, 4])
   \<and> decrypt ex_sodium ex_key (replicate 24 9 @ replicate 16 0 @ [2, 3, 4]) = Inr [1, 2, 3]
   \<and> encrypt ex_sodium ex_randomBytes (zero ex_key) [1, 2, 3] =
       Inl (AssertionError ''key has been zeroed'')
   \<and> decrypt ex_sodium (zero ex_key) (replicate 24 9 @ replicate 16 0 @ [2, 3, 4]) =
       Inl (AssertionError ''key has been zeroed'')"
proof -
  have k: "key ex_key = Some (replicate 32 7)" by (simp add: ex_key_def)
  have n: "length (ex_randomBytes crypto_secretbox_NONCEBYTES) = crypto_secretbox_NONCEBYTES"
    by (simp add: ex_randomBytes_def)
  have ne: "crypto_secretbox_easy ex_sodium [1, 2, 3]
              (ex_randomBytes crypto_secretbox_NONCEBYTES) (replicate 32 7) \<noteq> []"
    by (simp add: ex_sodium_def)
  have inv: "crypto_secretbox_open_easy ex_sodium
           (crypto_secretbox_easy ex_sodium [1, 2, 3]
              (ex_randomBytes crypto_secretbox_NONCEBYTES) (replicate 32 7))
           (ex_randomBytes crypto_secretbox_NONCEBYTES) (replicate 32 7) = Inr [1, 2, 3]"
    by (simp add: ex_sodium_def)
  have e: "encrypt ex_sodium ex_randomBytes ex_key [1, 2, 3] =
       Inr (replicate 24 9 @ replicate 16 0 @ [2, 3, 4])"
    by (simp add: encrypt_def ex_key_def ex_sodium_def ex_randomBytes_def
        crypto_secretbox_NONCEBYTES_def)
  from decrypt_inverts_encrypt [where sk = ex_key and k = "replicate 32 7"
      and randomBytes = ex_randomBytes and so = ex_sodium and d = "[1, 2, 3]"
      and c' = "replicate 24 9 @ replicate 16 0 @ [2, 3, 4]", OF k n ne inv] e
  have "decrypt ex_sodium ex_key (replicate 24 9 @ replicate 16 0 @ [2, 3, 4]) = Inr [1, 2, 3]"
    and "encrypt ex_sodium ex_randomBytes (zero ex_key) [1, 2, 3] =
       Inl (AssertionError ''key has been zeroed'')"
    and "decrypt ex_sodium (zero ex_key) (replicate 24 9 @ replicate 16 0 @ [2, 3, 4]) =
       Inl (AssertionError ''key has been zeroed'')"
    by auto
  moreover have "new_SecretKey (replicate 32 7) = Inr ex_key"
    by (simp add: new_SecretKey_def ex_key_def crypto_secretbox_KEYBYTES_def)
  ultimately show ?thesis using e by (intro conjI)
qed

end
